theory Spec2Isabelle
  imports Complex_Main
begin

section \<open>Vectors and matrices (the GLM operations the program calls)\<close>

text \<open>
  The program works on \<open>glm::vec2\<close>, \<open>glm::vec3\<close>, \<open>glm::vec4\<close> and \<open>glm::mat4\<close>.
  Vectors are tuples of scalars; a \<open>mat4\<close> is, as in GLM, four columns, so that the C++
  \<open>m[c][r]\<close> is component \<open>r\<close> of column \<open>c\<close>.  The scalar type is a parameter of the
  data model: the quadric accumulation below only needs \<open>0\<close>, \<open>+\<close> and \<open>*\<close> on it and
  is stated for every such type; the cost solver, the collapse and the builder are
  stated over \<open>real\<close>, which stands for the program's \<open>float\<close> without rounding.
\<close>

type_synonym 'a vec2 = "'a \<times> 'a"
type_synonym 'a vec3 = "'a \<times> 'a \<times> 'a"
type_synonym 'a vec4 = "'a \<times> 'a \<times> 'a \<times> 'a"
type_synonym 'a mat4 = "'a vec4 \<times> 'a vec4 \<times> 'a vec4 \<times> 'a vec4"

fun vec4_add :: "('a::plus) vec4 \<Rightarrow> 'a vec4 \<Rightarrow> 'a vec4" where
  "vec4_add (a0, a1, a2, a3) (b0, b1, b2, b3) = (a0 + b0, a1 + b1, a2 + b2, a3 + b3)"

fun vec4_scale :: "('a::times) vec4 \<Rightarrow> 'a \<Rightarrow> 'a vec4" where
  "vec4_scale (a0, a1, a2, a3) s = (a0 * s, a1 * s, a2 * s, a3 * s)"

definition mat4_zero :: "('a::zero) mat4" where
  "mat4_zero = ((0, 0, 0, 0), (0, 0, 0, 0), (0, 0, 0, 0), (0, 0, 0, 0))"

fun mat4_add :: "('a::plus) mat4 \<Rightarrow> 'a mat4 \<Rightarrow> 'a mat4" where
  "mat4_add (a0, a1, a2, a3) (b0, b1, b2, b3) =
     (vec4_add a0 b0, vec4_add a1 b1, vec4_add a2 b2, vec4_add a3 b3)"

text \<open>\<open>glm::outerProduct(c, r)\<close>: column \<open>i\<close> of the result is \<open>c * r[i]\<close>.\<close>

fun outerProduct :: "('a::times) vec4 \<Rightarrow> 'a vec4 \<Rightarrow> 'a mat4" where
  "outerProduct c (r0, r1, r2, r3) =
     (vec4_scale c r0, vec4_scale c r1, vec4_scale c r2, vec4_scale c r3)"

text \<open>The remaining operations are used at \<open>float\<close> only.\<close>

fun vec3_add :: "real vec3 \<Rightarrow> real vec3 \<Rightarrow> real vec3" where
  "vec3_add (a0, a1, a2) (b0, b1, b2) = (a0 + b0, a1 + b1, a2 + b2)"

fun vec3_sub :: "real vec3 \<Rightarrow> real vec3 \<Rightarrow> real vec3" where
  "vec3_sub (a0, a1, a2) (b0, b1, b2) = (a0 - b0, a1 - b1, a2 - b2)"

fun vec3_scale :: "real vec3 \<Rightarrow> real \<Rightarrow> real vec3" where
  "vec3_scale (a0, a1, a2) s = (a0 * s, a1 * s, a2 * s)"

fun dot3 :: "real vec3 \<Rightarrow> real vec3 \<Rightarrow> real" where
  "dot3 (a0, a1, a2) (b0, b1, b2) = a0 * b0 + a1 * b1 + a2 * b2"

fun dot4 :: "real vec4 \<Rightarrow> real vec4 \<Rightarrow> real" where
  "dot4 (a0, a1, a2, a3) (b0, b1, b2, b3) = (a0 * b0 + a1 * b1) + (a2 * b2 + a3 * b3)"

fun cross :: "real vec3 \<Rightarrow> real vec3 \<Rightarrow> real vec3" where
  "cross (x0, x1, x2) (y0, y1, y2) = (x1 * y2 - y1 * x2, x2 * y0 - y2 * x0, x0 * y1 - y0 * x1)"

definition length3 :: "real vec3 \<Rightarrow> real" where
  "length3 v = sqrt (dot3 v v)"

definition distance :: "real vec3 \<Rightarrow> real vec3 \<Rightarrow> real" where
  "distance p0 p1 = length3 (vec3_sub p1 p0)"

definition normalize :: "real vec3 \<Rightarrow> real vec3" where
  "normalize v = vec3_scale v (1 / sqrt (dot3 v v))"

definition clamp :: "real \<Rightarrow> real \<Rightarrow> real \<Rightarrow> real" where
  "clamp x minVal maxVal = min (max x minVal) maxVal"

text \<open>\<open>glm::mix(x, y, a) = x * (1 - a) + y * a\<close>, componentwise.\<close>

definition mix :: "real \<Rightarrow> real \<Rightarrow> real \<Rightarrow> real" where
  "mix x y a = x * (1 - a) + y * a"

fun mix2 :: "real vec2 \<Rightarrow> real vec2 \<Rightarrow> real \<Rightarrow> real vec2" where
  "mix2 (x0, x1) (y0, y1) a = (mix x0 y0 a, mix x1 y1 a)"

fun mix4 :: "real vec4 \<Rightarrow> real vec4 \<Rightarrow> real \<Rightarrow> real vec4" where
  "mix4 (x0, x1, x2, x3) (y0, y1, y2, y3) a = (mix x0 y0 a, mix x1 y1 a, mix x2 y2 a, mix x3 y3 a)"

text \<open>\<open>m * v\<close> for a \<open>mat4\<close> and a \<open>vec4\<close>: the columns weighted by the components.\<close>

fun mat4_mul_vec4 :: "real mat4 \<Rightarrow> real vec4 \<Rightarrow> real vec4" where
  "mat4_mul_vec4 (m0, m1, m2, m3) (x, y, z, w) =
     vec4_add (vec4_add (vec4_scale m0 x) (vec4_scale m1 y))
              (vec4_add (vec4_scale m2 z) (vec4_scale m3 w))"

fun mat4_scale :: "real mat4 \<Rightarrow> real \<Rightarrow> real mat4" where
  "mat4_scale (m0, m1, m2, m3) s = (vec4_scale m0 s, vec4_scale m1 s, vec4_scale m2 s, vec4_scale m3 s)"

text \<open>\<open>glm::determinant\<close> of a \<open>mat4\<close>: cofactor expansion along the first column;
  \<open>mcr\<close> below is the C++ \<open>m[c][r]\<close>.\<close>

definition determinant :: "real mat4 \<Rightarrow> real" where
  "determinant m =
     (case m of ((m00, m01, m02, m03), (m10, m11, m12, m13),
                 (m20, m21, m22, m23), (m30, m31, m32, m33)) \<Rightarrow>
      let SubFactor00 = m22 * m33 - m32 * m23;
          SubFactor01 = m21 * m33 - m31 * m23;
          SubFactor02 = m21 * m32 - m31 * m22;
          SubFactor03 = m20 * m33 - m30 * m23;
          SubFactor04 = m20 * m32 - m30 * m22;
          SubFactor05 = m20 * m31 - m30 * m21;
          DetCof0 = m11 * SubFactor00 - m12 * SubFactor01 + m13 * SubFactor02;
          DetCof1 = - (m10 * SubFactor00 - m12 * SubFactor03 + m13 * SubFactor04);
          DetCof2 = m10 * SubFactor01 - m11 * SubFactor03 + m13 * SubFactor05;
          DetCof3 = - (m10 * SubFactor02 - m11 * SubFactor04 + m12 * SubFactor05)
      in m00 * DetCof0 + m01 * DetCof1 + m02 * DetCof2 + m03 * DetCof3)"

text \<open>\<open>glm::inverse\<close> of a \<open>mat4\<close>: the signed cofactors, divided by the determinant.\<close>

definition inverse_mat4 :: "real mat4 \<Rightarrow> real mat4" where
  "inverse_mat4 m =
     (case m of ((m00, m01, m02, m03), (m10, m11, m12, m13),
                 (m20, m21, m22, m23), (m30, m31, m32, m33)) \<Rightarrow>
      let Coef00 = m22 * m33 - m32 * m23;
          Coef02 = m12 * m33 - m32 * m13;
          Coef03 = m12 * m23 - m22 * m13;
          Coef04 = m21 * m33 - m31 * m23;
          Coef06 = m11 * m33 - m31 * m13;
          Coef07 = m11 * m23 - m21 * m13;
          Coef08 = m21 * m32 - m31 * m22;
          Coef10 = m11 * m32 - m31 * m12;
          Coef11 = m11 * m22 - m21 * m12;
          Coef12 = m20 * m33 - m30 * m23;
          Coef14 = m10 * m33 - m30 * m13;
          Coef15 = m10 * m23 - m20 * m13;
          Coef16 = m20 * m32 - m30 * m22;
          Coef18 = m10 * m32 - m30 * m12;
          Coef19 = m10 * m22 - m20 * m12;
          Coef20 = m20 * m31 - m30 * m21;
          Coef22 = m10 * m31 - m30 * m11;
          Coef23 = m10 * m21 - m20 * m11;
          Inv0 = (  m11 * Coef00 - m12 * Coef04 + m13 * Coef08,
                  - (m01 * Coef00 - m02 * Coef04 + m03 * Coef08),
                    m01 * Coef02 - m02 * Coef06 + m03 * Coef10,
                  - (m01 * Coef03 - m02 * Coef07 + m03 * Coef11));
          Inv1 = (- (m10 * Coef00 - m12 * Coef12 + m13 * Coef16),
                    m00 * Coef00 - m02 * Coef12 + m03 * Coef16,
                  - (m00 * Coef02 - m02 * Coef14 + m03 * Coef18),
                    m00 * Coef03 - m02 * Coef15 + m03 * Coef19);
          Inv2 = (  m10 * Coef04 - m11 * Coef12 + m13 * Coef20,
                  - (m00 * Coef04 - m01 * Coef12 + m03 * Coef20),
                    m00 * Coef06 - m01 * Coef14 + m03 * Coef22,
                  - (m00 * Coef07 - m01 * Coef15 + m03 * Coef23));
          Inv3 = (- (m10 * Coef08 - m11 * Coef16 + m12 * Coef20),
                    m00 * Coef08 - m01 * Coef16 + m02 * Coef20,
                  - (m00 * Coef10 - m01 * Coef18 + m02 * Coef22),
                    m00 * Coef11 - m01 * Coef19 + m02 * Coef23);
          Dot1 = (m00 * fst Inv0 + m01 * fst Inv1) + (m02 * fst Inv2 + m03 * fst Inv3);
          OneOverDeterminant = 1 / Dot1
      in mat4_scale (Inv0, Inv1, Inv2, Inv3) OneOverDeterminant)"

section \<open>The mesh data model (Vertex.h, Edge.h, Face.h, Mesh.h)\<close>

record 'a Vertex =
  position :: "'a vec3"
  normal :: "'a vec3"
  texCoord :: "'a vec2"
  color :: "'a vec4"
  adjacentVertices :: "nat list"
  quadric :: "'a mat4"
  isDeleted :: bool

record 'a Edge =
  v1 :: nat
  v2 :: nat
  cost :: 'a
  optimalPosition :: "'a vec3"
  isBoundary :: bool
  isDirty :: bool
  isDeleted :: bool

record 'a Face =
  v1 :: nat
  v2 :: nat
  v3 :: nat
  normal :: "'a vec3"
  planeEquation :: "'a vec4"
  isDeleted :: bool

record 'a Mesh =
  vertices :: "'a Vertex list"
  edges :: "'a Edge list"
  faces :: "'a Face list"
  deletedVertices :: nat

section \<open>Vertex quadrics (QEM.cpp)\<close>

text \<open>
  \<open>computeQuadric(vertexIndex, vertices, faces)\<close>: the quadric of the one vertex is reset
  and every live face that names the vertex adds its fundamental quadric once.
\<close>

definition addQuadric :: "('a::plus) Vertex list \<Rightarrow> nat \<Rightarrow> 'a mat4 \<Rightarrow> 'a Vertex list" where
  "addQuadric vs i Kp = vs[i := (vs ! i)\<lparr>quadric := mat4_add (quadric (vs ! i)) Kp\<rparr>]"

definition computeQuadric_face ::
  "nat \<Rightarrow> ('a::{plus,times}) Vertex list \<Rightarrow> 'a Face \<Rightarrow> 'a Vertex list" where
  "computeQuadric_face vertexIndex vs face =
     (if Face.isDeleted face then vs
      else if Face.v1 face = vertexIndex \<or> Face.v2 face = vertexIndex \<or> Face.v3 face = vertexIndex
      then (let p = planeEquation face; Kp = outerProduct p p
            in addQuadric vs vertexIndex Kp)
      else vs)"

definition computeQuadric ::
  "nat \<Rightarrow> ('a::{zero,plus,times}) Vertex list \<Rightarrow> 'a Face list \<Rightarrow> 'a Vertex list" where
  "computeQuadric vertexIndex vs fs =
     foldl (computeQuadric_face vertexIndex)
       (vs[vertexIndex := (vs ! vertexIndex)\<lparr>quadric := mat4_zero\<rparr>]) fs"

text \<open>
  \<open>computeAllQuadrics(vertices, faces)\<close>: every quadric is reset, then one pass over
  the faces adds each live face's fundamental quadric to its three vertices.
\<close>

definition computeAllQuadrics_face ::
  "('a::{plus,times}) Vertex list \<Rightarrow> 'a Face \<Rightarrow> 'a Vertex list" where
  "computeAllQuadrics_face vs face =
     (if Face.isDeleted face then vs
      else (let p = planeEquation face; Kp = outerProduct p p;
                vs1 = addQuadric vs (Face.v1 face) Kp;
                vs2 = addQuadric vs1 (Face.v2 face) Kp
            in addQuadric vs2 (Face.v3 face) Kp))"

definition computeAllQuadrics ::
  "('a::{zero,plus,times}) Vertex list \<Rightarrow> 'a Face list \<Rightarrow> 'a Vertex list" where
  "computeAllQuadrics vs fs =
     foldl computeAllQuadrics_face (map (\<lambda>v. v\<lparr>quadric := mat4_zero\<rparr>) vs) fs"

text \<open>The well-formedness of a face that the data model asks for: three pairwise distinct
  indices into the vertex array.\<close>

definition face_indices_ok :: "nat \<Rightarrow> 'a Face \<Rightarrow> bool" where
  "face_indices_ok n f \<longleftrightarrow>
     Face.v1 f < n \<and> Face.v2 f < n \<and> Face.v3 f < n \<and>
     Face.v1 f \<noteq> Face.v2 f \<and> Face.v2 f \<noteq> Face.v3 f \<and> Face.v3 f \<noteq> Face.v1 f"

section \<open>The cost solver (QEM.cpp, computeCost)\<close>

definition QEM_EPSILON :: real where
  "QEM_EPSILON = 1 / 10 ^ 10"

text \<open>\<open>std::numeric_limits<float>::max()\<close>.\<close>

definition FLT_MAX :: real where
  "FLT_MAX = 340282346638528859811704183484516925440"

text \<open>\<open>Q_bar\<close>: the fourth component of every column of \<open>Q\<close> is overwritten
  (\<open>Q_bar[0][3] = 0\<close>, \<open>Q_bar[1][3] = 0\<close>, \<open>Q_bar[2][3] = 0\<close>, \<open>Q_bar[3][3] = 1\<close>).\<close>

definition Q_bar_of :: "real mat4 \<Rightarrow> real mat4" where
  "Q_bar_of Q =
     (case Q of ((m00, m01, m02, m03), (m10, m11, m12, m13),
                 (m20, m21, m22, m23), (m30, m31, m32, m33)) \<Rightarrow>
        ((m00, m01, m02, 0), (m10, m11, m12, 0), (m20, m21, m22, 0), (m30, m31, m32, 1)))"

definition vec4_of :: "real vec3 \<Rightarrow> real \<Rightarrow> real vec4" where
  "vec4_of v w = (case v of (x, y, z) \<Rightarrow> (x, y, z, w))"

definition vec3_of :: "real vec4 \<Rightarrow> real vec3" where
  "vec3_of v = (case v of (x, y, z, w) \<Rightarrow> (x, y, z))"

text \<open>One round of the loop over the three candidates of the singular branch; the state
  is \<open>(minCost, optimalPos)\<close>.\<close>

definition tryCandidate :: "real mat4 \<Rightarrow> real \<times> real vec4 \<Rightarrow> real vec3 \<Rightarrow> real \<times> real vec4" where
  "tryCandidate Q st c =
     (let candidate = vec4_of c 1;
          cost = dot4 candidate (mat4_mul_vec4 Q candidate)
      in if cost < fst st then (cost, candidate) else st)"

text \<open>\<open>computeCost(edge, vertices)\<close>.  The local \<open>optimalPos\<close> is declared without an
  initial value; it keeps that indeterminate value (\<open>undefined\<close>) when no candidate
  costs less than \<open>FLT_MAX\<close>.\<close>

definition computeCost :: "real Edge \<Rightarrow> real Vertex list \<Rightarrow> real Edge" where
  "computeCost edge vs =
     (let Q = mat4_add (quadric (vs ! Edge.v1 edge)) (quadric (vs ! Edge.v2 edge));
          Q_bar = Q_bar_of Q;
          det = determinant Q_bar;
          (minCost, optimalPos) =
            (if \<bar>det\<bar> > QEM_EPSILON
             then (let optimalPos = mat4_mul_vec4 (inverse_mat4 Q_bar) (0, 0, 0, 1)
                   in (dot4 optimalPos (mat4_mul_vec4 Q optimalPos), optimalPos))
             else foldl (tryCandidate Q) (FLT_MAX, undefined)
                    [position (vs ! Edge.v1 edge),
                     position (vs ! Edge.v2 edge),
                     vec3_scale (vec3_add (position (vs ! Edge.v1 edge))
                                          (position (vs ! Edge.v2 edge))) (1 / 2)])
      in edge\<lparr>optimalPosition := vec3_of optimalPos, cost := minCost\<rparr>)"

section \<open>Edge collapse (QEM.cpp, edgeCollapse)\<close>

text \<open>Step 1 on the vertex array: both endpoints get the new position, \<open>v2\<close> is
  deleted.\<close>

definition moveVertices :: "real Vertex list \<Rightarrow> nat \<Rightarrow> nat \<Rightarrow> real vec3 \<Rightarrow> real Vertex list" where
  "moveVertices vs a b newPosition =
     (let vs1 = vs[a := (vs ! a)\<lparr>position := newPosition\<rparr>];
          vs2 = vs1[b := (vs1 ! b)\<lparr>position := newPosition\<rparr>]
      in vs2[b := (vs2 ! b)\<lparr>Vertex.isDeleted := True\<rparr>])"

text \<open>
  Step 4, the loop over \<open>mesh.edges\<close>.  Round \<open>i\<close> reads and writes \<open>edges[i]\<close> only, so
  the loop is a recursion over the list with the index counted along; it returns the
  new edges and \<open>affectedEdgeIndices\<close> (an unordered set in the source, here the
  indices in increasing order).
\<close>

definition remapEdge :: "nat \<Rightarrow> nat \<Rightarrow> 'a Edge \<Rightarrow> 'a Edge" where
  "remapEdge a b e =
     (let e1 = (if Edge.v1 e = b then e\<lparr>Edge.v1 := a\<rparr> else e)
      in if Edge.v2 e1 = b then e1\<lparr>Edge.v2 := a\<rparr> else e1)"

fun remapEdges :: "nat \<Rightarrow> nat \<Rightarrow> nat \<Rightarrow> 'a Edge list \<Rightarrow> 'a Edge list \<times> nat list" where
  "remapEdges a b i [] = ([], [])"
| "remapEdges a b i (e # es) =
     (let (es', affected) = remapEdges a b (Suc i) es
      in if Edge.isDeleted e then (e # es', affected)
         else (let e' = remapEdge a b e
               in if Edge.v1 e' = Edge.v2 e' then (e'\<lparr>Edge.isDeleted := True\<rparr> # es', affected)
                  else if Edge.v1 e' = a \<or> Edge.v2 e' = a then (e' # es', i # affected)
                  else (e' # es', affected)))"

text \<open>Step 5, the body of the loop over \<open>mesh.faces\<close>.\<close>

definition remapFace :: "nat \<Rightarrow> nat \<Rightarrow> 'a Face \<Rightarrow> 'a Face" where
  "remapFace a b face =
     (if Face.isDeleted face then face
      else (let f1 = (if Face.v1 face = b then face\<lparr>Face.v1 := a\<rparr> else face);
                f2 = (if Face.v2 f1 = b then f1\<lparr>Face.v2 := a\<rparr> else f1);
                f3 = (if Face.v3 f2 = b then f2\<lparr>Face.v3 := a\<rparr> else f2)
            in if Face.v1 f3 = Face.v2 f3 \<or> Face.v2 f3 = Face.v3 f3 \<or> Face.v3 f3 = Face.v1 f3
               then f3\<lparr>Face.isDeleted := True\<rparr> else f3))"

text \<open>Step 7, the body of the loop over \<open>affectedEdgeIndices\<close>.\<close>

definition recomputeEdge :: "real Vertex list \<Rightarrow> real Edge list \<Rightarrow> nat \<Rightarrow> real Edge list" where
  "recomputeEdge vs es edgeIdx =
     (if \<not> Edge.isDeleted (es ! edgeIdx) then es[edgeIdx := computeCost (es ! edgeIdx) vs] else es)"

text \<open>Step 8: the parameter \<open>t\<close> from \<open>v1Pos\<close>, \<open>v2Pos\<close> (read from the vertex array at
  that point) and \<open>newPosition\<close>, then the two \<open>glm::mix\<close> assignments to \<open>v1\<close>.\<close>

definition interpolationParameter :: "real vec3 \<Rightarrow> real vec3 \<Rightarrow> real vec3 \<Rightarrow> real" where
  "interpolationParameter v1Pos v2Pos newPosition =
     (let totalDist = length3 (vec3_sub v1Pos v2Pos)
      in if totalDist > QEM_EPSILON
         then clamp (length3 (vec3_sub newPosition v1Pos) / totalDist) 0 1
         else 1 / 2)"

definition interpolateAttributes ::
  "real Vertex list \<Rightarrow> nat \<Rightarrow> nat \<Rightarrow> real vec3 \<Rightarrow> real Vertex list" where
  "interpolateAttributes vs a b newPosition =
     (let t = interpolationParameter (position (vs ! a)) (position (vs ! b)) newPosition;
          vs5 = vs[a := (vs ! a)\<lparr>texCoord := mix2 (texCoord (vs ! a)) (texCoord (vs ! b)) t\<rparr>]
      in vs5[a := (vs5 ! a)\<lparr>color := mix4 (color (vs5 ! a)) (color (vs5 ! b)) t\<rparr>])"

text \<open>
  \<open>edgeCollapse(mesh, edge)\<close>.  The program's one call passes \<open>mesh.edges[edgeIndex]\<close>
  as \<open>edge\<close>, a reference into the mesh, so the model takes the index.  Vector accesses
  out of range are undefined behaviour in the source; the theorems below carry the
  index bounds they need.
\<close>

definition edgeCollapse :: "real Mesh \<Rightarrow> nat \<Rightarrow> real Mesh" where
  "edgeCollapse mesh edgeIndex =
     (let edge = edges mesh ! edgeIndex;
          a = Edge.v1 edge;
          b = Edge.v2 edge;
          newPosition = optimalPosition edge;
          vs3 = moveVertices (vertices mesh) a b newPosition;
          es1 = (edges mesh)[edgeIndex := edge\<lparr>Edge.isDeleted := True\<rparr>];
          (es2, affectedEdgeIndices) = remapEdges a b 0 es1;
          fs1 = map (remapFace a b) (faces mesh);
          vs4 = computeQuadric a vs3 fs1;
          es3 = foldl (recomputeEdge vs4) es2 affectedEdgeIndices
      in \<lparr>vertices = interpolateAttributes vs4 a b newPosition, edges = es3, faces = fs1,
          deletedVertices = deletedVertices mesh + 1\<rparr>)"

text \<open>Names for two intermediate values of a collapse: the vertex array that step 7
  hands to \<open>computeCost\<close>, and what round \<open>i\<close> of the edge loop leaves in \<open>edges[i]\<close>.\<close>

definition verticesAfterQuadric :: "real Mesh \<Rightarrow> nat \<Rightarrow> real Vertex list" where
  "verticesAfterQuadric m i =
     (let a = Edge.v1 (edges m ! i); b = Edge.v2 (edges m ! i)
      in computeQuadric a (moveVertices (vertices m) a b (optimalPosition (edges m ! i)))
           (map (remapFace a b) (faces m)))"

definition remapEdgeStep :: "nat \<Rightarrow> nat \<Rightarrow> 'a Edge \<Rightarrow> 'a Edge" where
  "remapEdgeStep a b e =
     (if Edge.isDeleted e then e
      else if Edge.v1 (remapEdge a b e) = Edge.v2 (remapEdge a b e)
      then (remapEdge a b e)\<lparr>Edge.isDeleted := True\<rparr>
      else remapEdge a b e)"

definition edgesAfterRemap :: "real Mesh \<Rightarrow> nat \<Rightarrow> real Edge list" where
  "edgesAfterRemap m i =
     map (remapEdgeStep (Edge.v1 (edges m ! i)) (Edge.v2 (edges m ! i)))
       ((edges m)[i := (edges m ! i)\<lparr>Edge.isDeleted := True\<rparr>])"

definition affectsSurvivor :: "nat \<Rightarrow> nat \<Rightarrow> 'a Edge \<Rightarrow> bool" where
  "affectsSurvivor a b e \<longleftrightarrow>
     \<not> Edge.isDeleted (remapEdgeStep a b e) \<and>
     (Edge.v1 (remapEdgeStep a b e) = a \<or> Edge.v2 (remapEdgeStep a b e) = a)"

text \<open>\<open>initializeQuadrics(mesh)\<close> and \<open>initializeEdgeCosts(mesh)\<close>.\<close>

definition initializeQuadrics :: "real Mesh \<Rightarrow> real Mesh" where
  "initializeQuadrics mesh =
     mesh\<lparr>vertices :=
       foldl (\<lambda>vs i. if \<not> Vertex.isDeleted (vs ! i) then computeQuadric i vs (faces mesh) else vs)
         (vertices mesh) [0..<length (vertices mesh)]\<rparr>"

definition initializeEdgeCosts :: "real Mesh \<Rightarrow> real Mesh" where
  "initializeEdgeCosts mesh =
     mesh\<lparr>edges :=
       map (\<lambda>edge. if \<not> Edge.isDeleted edge then computeCost edge (vertices mesh) else edge)
         (edges mesh)\<rparr>"

section \<open>The mesh builder (Mesh.h, buildMesh)\<close>

definition Vertex_ctor :: "real vec3 \<Rightarrow> real vec3 \<Rightarrow> real vec2 \<Rightarrow> real vec4 \<Rightarrow> real Vertex" where
  "Vertex_ctor pos nrm uv col =
     \<lparr>position = pos, Vertex.normal = nrm, texCoord = uv, color = col, adjacentVertices = [],
      quadric = mat4_zero, Vertex.isDeleted = False\<rparr>"

text \<open>The \<open>Edge\<close> constructor gives \<open>optimalPosition\<close> no value.\<close>

definition Edge_ctor :: "nat \<Rightarrow> nat \<Rightarrow> real Edge" where
  "Edge_ctor vertex1 vertex2 =
     \<lparr>Edge.v1 = vertex1, Edge.v2 = vertex2, cost = 0, optimalPosition = undefined,
      isBoundary = False, isDirty = False, Edge.isDeleted = False\<rparr>"

text \<open>The \<open>Face\<close> constructor with \<open>computeNormal\<close>.\<close>

definition Face_ctor :: "nat \<Rightarrow> nat \<Rightarrow> nat \<Rightarrow> real vec3 \<Rightarrow> real vec3 \<Rightarrow> real vec3 \<Rightarrow> real Face" where
  "Face_ctor idx1 idx2 idx3 pos1 pos2 pos3 =
     (let edge1 = vec3_sub pos2 pos1;
          edge2 = vec3_sub pos3 pos1;
          n = normalize (cross edge1 edge2);
          d = - dot3 n pos1
      in \<lparr>Face.v1 = idx1, Face.v2 = idx2, Face.v3 = idx3, Face.normal = n,
          planeEquation = vec4_of n d, Face.isDeleted = False\<rparr>)"

definition GRID_SIZE :: real where
  "GRID_SIZE = 1 / 1000"

definition EPSILON :: real where
  "EPSILON = 1 / 10000"

definition gridKey :: "real vec3 \<Rightarrow> int \<times> int \<times> int" where
  "gridKey pos = (case pos of (x, y, z) \<Rightarrow> (\<lfloor>x / GRID_SIZE\<rfloor>, \<lfloor>y / GRID_SIZE\<rfloor>, \<lfloor>z / GRID_SIZE\<rfloor>))"

text \<open>
  Step 1, one round of the welding loop.  The state is the vertex array built so far,
  \<open>spatialHash\<close> and \<open>vertexMapping\<close>.
\<close>

type_synonym weld_state =
  "real Vertex list \<times> (int \<times> int \<times> int \<rightharpoonup> nat list) \<times> nat list"

definition weldVertex ::
  "real vec3 list \<Rightarrow> real vec2 list \<Rightarrow> real vec3 list \<Rightarrow> weld_state \<Rightarrow> nat \<Rightarrow> weld_state" where
  "weldVertex inVertices uvs normals st i =
     (case st of (vs, spatialHash, vertexMapping) \<Rightarrow>
        let pos = inVertices ! i;
            key = gridKey pos;
            found = (case spatialHash key of
                       None \<Rightarrow> None
                     | Some candidates \<Rightarrow>
                         find (\<lambda>existingIdx. distance pos (position (vs ! existingIdx)) < EPSILON)
                           candidates)
        in case found of
             Some existingIdx \<Rightarrow> (vs, spatialHash, vertexMapping[i := existingIdx])
           | None \<Rightarrow>
               (let newIdx = length vs
                in (vs @ [Vertex_ctor pos (normals ! i) (uvs ! i) (1, 1, 1, 1)],
                    spatialHash(key \<mapsto> (case spatialHash key of None \<Rightarrow> [] | Some c \<Rightarrow> c) @ [newIdx]),
                    vertexMapping[i := newIdx])))"

text \<open>Step 2, one round of the face loop (\<open>i\<close> runs over \<open>0, 3, 6, ...\<close> below
  \<open>numVertices\<close>).\<close>

definition emitFace ::
  "nat \<Rightarrow> real Vertex list \<Rightarrow> nat list \<Rightarrow> real Face list \<Rightarrow> nat \<Rightarrow> real Face list" where
  "emitFace numVertices vs vertexMapping fs i =
     (if i + 2 < numVertices
      then (let a = vertexMapping ! i;
                b = vertexMapping ! (i + 1);
                c = vertexMapping ! (i + 2)
            in if a = b \<or> b = c \<or> c = a then fs
               else fs @ [Face_ctor a b c (position (vs ! a)) (position (vs ! b)) (position (vs ! c))])
      else fs)"

text \<open>Step 3.  \<open>edgeSet\<close> is a \<open>std::map\<close> to \<open>bool\<close> read with \<open>operator[]\<close>, which
  yields \<open>false\<close> for a missing key: a function to \<open>bool\<close>.\<close>

definition addEdge ::
  "real Edge list \<times> (nat \<times> nat \<Rightarrow> bool) \<Rightarrow> nat \<times> nat \<Rightarrow> real Edge list \<times> (nat \<times> nat \<Rightarrow> bool)" where
  "addEdge st e =
     (case st of (es, edgeSet) \<Rightarrow>
        if \<not> edgeSet e then (es @ [Edge_ctor (fst e) (snd e)], edgeSet(e := True))
        else (es, edgeSet))"

definition extractEdges ::
  "real Edge list \<times> (nat \<times> nat \<Rightarrow> bool) \<Rightarrow> real Face \<Rightarrow> real Edge list \<times> (nat \<times> nat \<Rightarrow> bool)" where
  "extractEdges st face =
     (let e1 = (min (Face.v1 face) (Face.v2 face), max (Face.v1 face) (Face.v2 face));
          e2 = (min (Face.v2 face) (Face.v3 face), max (Face.v2 face) (Face.v3 face));
          e3 = (min (Face.v3 face) (Face.v1 face), max (Face.v3 face) (Face.v1 face))
      in addEdge (addEdge (addEdge st e1) e2) e3)"

text \<open>
  \<open>mesh.buildMesh(numVertices, vertices, uvs, normals)\<close> on the program's mesh, which is
  default-constructed (no vertices, edges or faces, \<open>deletedVertices = 0\<close>) when
  \<open>main\<close> makes the call.  The three steps of the function are its three loops.
\<close>

definition weldVertices ::
  "nat \<Rightarrow> real vec3 list \<Rightarrow> real vec2 list \<Rightarrow> real vec3 list \<Rightarrow> weld_state" where
  "weldVertices numVertices inVertices uvs normals =
     foldl (weldVertex inVertices uvs normals)
       ([], Map.empty, replicate numVertices 0) [0..<numVertices]"

definition buildFaces :: "nat \<Rightarrow> real Vertex list \<Rightarrow> nat list \<Rightarrow> real Face list" where
  "buildFaces numVertices vs vertexMapping =
     foldl (emitFace numVertices vs vertexMapping) []
       (map (\<lambda>t. 3 * t) [0..<(numVertices + 2) div 3])"

definition uniqueEdges :: "real Face list \<Rightarrow> real Edge list" where
  "uniqueEdges fs = fst (foldl extractEdges ([], \<lambda>e. False) fs)"

definition buildMesh ::
  "nat \<Rightarrow> real vec3 list \<Rightarrow> real vec2 list \<Rightarrow> real vec3 list \<Rightarrow> real Mesh" where
  "buildMesh numVertices inVertices uvs normals =
     (let (vs, spatialHash, vertexMapping) = weldVertices numVertices inVertices uvs normals;
          fs = buildFaces numVertices vs vertexMapping
      in \<lparr>vertices = vs, edges = uniqueEdges fs, faces = fs, deletedVertices = 0\<rparr>)"

section \<open>The simplification scheduler (main.cpp, meshSimplify)\<close>

text \<open>
  \<open>edgeQueue\<close> is a \<open>std::priority_queue\<close> of edge copies whose comparator orders by
  \<open>cost\<close> only.  The model keeps the copies in a list in the order of the pushes;
  \<open>top\<close> is the first copy of least cost (the standard leaves the choice among
  copies of equal cost to the heap).
\<close>

definition pq_top :: "real Edge list \<Rightarrow> real Edge" where
  "pq_top q = foldl (\<lambda>best e. if cost e < cost best then e else best) (hd q) (tl q)"

definition pq_pop :: "real Edge list \<Rightarrow> real Edge list" where
  "pq_pop q = remove1 (pq_top q) q"

text \<open>The scan of \<open>mesh.edges\<close> for the popped copy's endpoints, in either order; the
  first match ends the scan, deleted or not.\<close>

definition findEdge :: "real Edge list \<Rightarrow> real Edge \<Rightarrow> nat option" where
  "findEdge es edge =
     find (\<lambda>i. (Edge.v1 (es ! i) = Edge.v1 edge \<and> Edge.v2 (es ! i) = Edge.v2 edge) \<or>
               (Edge.v1 (es ! i) = Edge.v2 edge \<and> Edge.v2 (es ! i) = Edge.v1 edge))
       [0..<length es]"

text \<open>The lazy initialisation of the queue: the loop over \<open>mesh.edges\<close> returns the new
  edges and the copies pushed, in order.\<close>

fun initQueue :: "real Vertex list \<Rightarrow> real Edge list \<Rightarrow> real Edge list \<times> real Edge list" where
  "initQueue vs [] = ([], [])"
| "initQueue vs (e # es) =
     (let (es', pushed) = initQueue vs es
      in if Edge.isDeleted e then (e # es', pushed)
         else (let e' = (computeCost e vs)\<lparr>isDirty := False\<rparr>
               in (e' # es', e' # pushed)))"

text \<open>The loop after a collapse that marks the edges at the surviving vertex.\<close>

fun markDirty :: "nat \<Rightarrow> real Edge list \<Rightarrow> real Edge list \<times> real Edge list" where
  "markDirty newVertexIndex [] = ([], [])"
| "markDirty newVertexIndex (e # es) =
     (let (es', pushed) = markDirty newVertexIndex es
      in if Edge.isDeleted e then (e # es', pushed)
         else if Edge.v1 e = newVertexIndex \<or> Edge.v2 e = newVertexIndex
         then (let e' = e\<lparr>isDirty := True\<rparr> in (e' # es', e' # pushed))
         else (e # es', pushed))"

text \<open>The dirty branch: recompute, clear the flag, push the copy.\<close>

definition refreshEdge :: "real Mesh \<Rightarrow> nat \<Rightarrow> real Mesh" where
  "refreshEdge mesh edgeIndex =
     mesh\<lparr>edges := (edges mesh)
       [edgeIndex := (computeCost (edges mesh ! edgeIndex) (vertices mesh))\<lparr>isDirty := False\<rparr>]\<rparr>"

text \<open>The collapse branch: \<open>edgeCollapse\<close>, then the marking loop; returns the mesh and
  the copies pushed.\<close>

definition collapseAndMark :: "real Mesh \<Rightarrow> nat \<Rightarrow> real Mesh \<times> real Edge list" where
  "collapseAndMark mesh edgeIndex =
     (let m1 = edgeCollapse mesh edgeIndex;
          newVertexIndex = Edge.v1 (edges m1 ! edgeIndex);
          (es', pushed) = markDirty newVertexIndex (edges m1)
      in (m1\<lparr>edges := es'\<rparr>, pushed))"

text \<open>The loop of \<open>meshSimplify\<close> ends: a collapse deletes a live edge, the dirty branch
  clears the flag of a live edge without touching the deletion flags, and every
  other round only pops.  These are the measures and the facts the termination
  proof needs.\<close>

definition liveEdges :: "'a Edge list \<Rightarrow> nat" where
  "liveEdges es = length (filter (\<lambda>e. \<not> Edge.isDeleted e) es)"

definition dirtyEdges :: "'a Edge list \<Rightarrow> nat" where
  "dirtyEdges es = length (filter (\<lambda>e. \<not> Edge.isDeleted e \<and> isDirty e) es)"


lemma length_filter_list_update:
  "i < length xs \<Longrightarrow>
   length (filter P (xs[i := y])) + (if P (xs ! i) then 1 else 0) =
   length (filter P xs) + (if P y then 1 else 0)"
proof (induction xs arbitrary: i)
  case Nil
  then show ?case by simp
next
  case (Cons x xs)
  show ?case
  proof (cases i)
    case 0
    then show ?thesis by simp
  next
    case (Suc j)
    with Cons.prems have "j < length xs" by simp
    from Cons.IH [OF this] Suc show ?thesis by simp
  qed
qed

lemma liveEdges_map: "liveEdges es = length (filter (\<lambda>d. \<not> d) (map Edge.isDeleted es))"
  by (simp add: liveEdges_def filter_map comp_def)

lemma isDeleted_computeCost [simp]: "Edge.isDeleted (computeCost e vs) = Edge.isDeleted e"
  by (simp add: computeCost_def Let_def split: prod.splits)

lemma v1_computeCost [simp]: "Edge.v1 (computeCost e vs) = Edge.v1 e"
  by (simp add: computeCost_def Let_def split: prod.splits)

lemma v2_computeCost [simp]: "Edge.v2 (computeCost e vs) = Edge.v2 e"
  by (simp add: computeCost_def Let_def split: prod.splits)

lemma isDirty_computeCost [simp]: "isDirty (computeCost e vs) = isDirty e"
  by (simp add: computeCost_def Let_def split: prod.splits)

lemma map_list_update_same:
  "f y = f (xs ! i) \<Longrightarrow> map f (xs[i := y]) = map f xs"
  by (cases "i < length xs") (simp_all add: list_eq_iff_nth_eq nth_list_update)

lemma length_recomputeEdge [simp]: "length (recomputeEdge vs es j) = length es"
  by (simp add: recomputeEdge_def)

lemma length_foldl_recomputeEdge [simp]: "length (foldl (recomputeEdge vs) es js) = length es"
  by (induction js arbitrary: es) simp_all

lemma isDeleted_recomputeEdge:
  "map Edge.isDeleted (recomputeEdge vs es j) = map Edge.isDeleted es"
  by (simp add: recomputeEdge_def map_list_update_same)

lemma isDeleted_foldl_recomputeEdge:
  "map Edge.isDeleted (foldl (recomputeEdge vs) es js) = map Edge.isDeleted es"
  by (induction js arbitrary: es) (simp_all add: isDeleted_recomputeEdge)

lemma fst_remapEdges: "fst (remapEdges a b i es) = map (remapEdgeStep a b) es"
  by (induction es arbitrary: i) (simp_all add: Let_def case_prod_beta remapEdgeStep_def)

lemma length_remapEdges [simp]: "length (fst (remapEdges a b i es)) = length es"
  by (simp add: fst_remapEdges)

lemma liveEdges_remapEdges: "liveEdges (fst (remapEdges a b i es)) \<le> liveEdges es"
  unfolding fst_remapEdges liveEdges_def
  by (induction es) (auto simp: remapEdgeStep_def remapEdge_def Let_def intro: le_SucI)

definition markDirtyStep :: "nat \<Rightarrow> 'a Edge \<Rightarrow> 'a Edge" where
  "markDirtyStep nv e =
     (if \<not> Edge.isDeleted e \<and> (Edge.v1 e = nv \<or> Edge.v2 e = nv) then e\<lparr>isDirty := True\<rparr> else e)"

lemma fst_markDirty: "fst (markDirty nv es) = map (markDirtyStep nv) es"
  by (induction es) (simp_all add: Let_def case_prod_beta markDirtyStep_def)

lemma length_markDirty [simp]: "length (fst (markDirty nv es)) = length es"
  by (simp add: fst_markDirty)

lemma isDeleted_markDirty:
  "map Edge.isDeleted (fst (markDirty nv es)) = map Edge.isDeleted es"
  by (simp add: fst_markDirty markDirtyStep_def)

lemma edges_edgeCollapse:
  "edges (edgeCollapse m i) =
     (let r = remapEdges (Edge.v1 (edges m ! i)) (Edge.v2 (edges m ! i)) 0
                ((edges m)[i := (edges m ! i)\<lparr>Edge.isDeleted := True\<rparr>])
      in foldl (recomputeEdge (verticesAfterQuadric m i)) (fst r) (snd r))"
  by (simp add: edgeCollapse_def verticesAfterQuadric_def Let_def case_prod_beta)

lemma liveEdges_edgeCollapse:
  assumes "i < length (edges m)" and "\<not> Edge.isDeleted (edges m ! i)"
  shows "liveEdges (edges (edgeCollapse m i)) < liveEdges (edges m)"
proof -
  let ?es1 = "(edges m)[i := (edges m ! i)\<lparr>Edge.isDeleted := True\<rparr>]"
  have "liveEdges ?es1 + 1 = liveEdges (edges m)"
    using length_filter_list_update [OF assms(1), of "\<lambda>e. \<not> Edge.isDeleted e"
        "(edges m ! i)\<lparr>Edge.isDeleted := True\<rparr>"] assms(2)
    by (simp add: liveEdges_def)
  moreover have "liveEdges (edges (edgeCollapse m i)) =
      liveEdges (fst (remapEdges (Edge.v1 (edges m ! i)) (Edge.v2 (edges m ! i)) 0 ?es1))"
    unfolding edges_edgeCollapse Let_def liveEdges_map
    by (simp only: isDeleted_foldl_recomputeEdge)
  ultimately show ?thesis
    using liveEdges_remapEdges [of "Edge.v1 (edges m ! i)" "Edge.v2 (edges m ! i)" 0 ?es1]
    by simp
qed

lemma length_edges_edgeCollapse [simp]: "length (edges (edgeCollapse m i)) = length (edges m)"
  by (simp add: edges_edgeCollapse Let_def)

lemma edges_collapseAndMark:
  "edges (fst (collapseAndMark m i)) =
     fst (markDirty (Edge.v1 (edges (edgeCollapse m i) ! i)) (edges (edgeCollapse m i)))"
  by (simp add: collapseAndMark_def Let_def case_prod_beta)

lemma liveEdges_collapseAndMark:
  assumes "i < length (edges m)" and "\<not> Edge.isDeleted (edges m ! i)"
  shows "liveEdges (edges (fst (collapseAndMark m i))) < liveEdges (edges m)"
proof -
  have "liveEdges (edges (fst (collapseAndMark m i))) = liveEdges (edges (edgeCollapse m i))"
    unfolding edges_collapseAndMark liveEdges_map by (simp only: isDeleted_markDirty)
  with liveEdges_edgeCollapse [OF assms] show ?thesis by simp
qed

lemma liveEdges_refreshEdge [simp]:
  "liveEdges (edges (refreshEdge m i)) = liveEdges (edges m)"
  by (simp add: refreshEdge_def liveEdges_map map_list_update_same)

lemma dirtyEdges_refreshEdge:
  assumes "i < length (edges m)" and "\<not> Edge.isDeleted (edges m ! i)" and "isDirty (edges m ! i)"
  shows "dirtyEdges (edges (refreshEdge m i)) < dirtyEdges (edges m)"
  using length_filter_list_update [OF assms(1), of "\<lambda>e. \<not> Edge.isDeleted e \<and> isDirty e"
      "(computeCost (edges m ! i) (vertices m))\<lparr>isDirty := False\<rparr>"] assms(2,3)
  by (simp add: dirtyEdges_def refreshEdge_def)

lemma findEdge_Some_less: "findEdge es e = Some i \<Longrightarrow> i < length es"
  by (auto simp: findEdge_def find_Some_iff)

lemma pq_top_in_set: "q \<noteq> [] \<Longrightarrow> pq_top q \<in> set q"
proof -
  have "foldl (\<lambda>best e. if cost e < cost best then e else best) x xs \<in> set (x # xs)"
    for x :: "real Edge" and xs
    by (induction xs arbitrary: x) auto
  from this [of "hd q" "tl q"] show "q \<noteq> [] \<Longrightarrow> pq_top q \<in> set q"
    by (simp add: pq_top_def)
qed

lemma length_pq_pop: "q \<noteq> [] \<Longrightarrow> Suc (length (pq_pop q)) = length q"
proof -
  assume "q \<noteq> []"
  then have "pq_top q \<in> set q" by (rule pq_top_in_set)
  then have "length (pq_pop q) = length q - 1"
    by (simp add: pq_pop_def length_remove1)
  with \<open>q \<noteq> []\<close> show ?thesis by (cases q) simp_all
qed

function simplifyLoop ::
  "nat \<Rightarrow> real Mesh \<Rightarrow> real Edge list \<Rightarrow> nat \<Rightarrow> real Mesh \<times> real Edge list \<times> nat" where
  "simplifyLoop budget mesh q count =
     (if q = [] then (mesh, q, count)
      else (case findEdge (edges mesh) (pq_top q) of
              None \<Rightarrow> simplifyLoop budget mesh (pq_pop q) count
            | Some edgeIndex \<Rightarrow>
                if Edge.isDeleted (edges mesh ! edgeIndex)
                then simplifyLoop budget mesh (pq_pop q) count
                else if isDirty (edges mesh ! edgeIndex)
                then simplifyLoop budget (refreshEdge mesh edgeIndex)
                       (pq_pop q @ [edges (refreshEdge mesh edgeIndex) ! edgeIndex]) count
                else if Suc count \<ge> budget
                then (fst (collapseAndMark mesh edgeIndex),
                      pq_pop q @ snd (collapseAndMark mesh edgeIndex), Suc count)
                else simplifyLoop budget (fst (collapseAndMark mesh edgeIndex))
                       (pq_pop q @ snd (collapseAndMark mesh edgeIndex)) (Suc count)))"
  by pat_completeness auto
termination
  apply (relation "inv_image (less_than <*lex*> less_than <*lex*> less_than)
      (\<lambda>(budget, mesh, q, count). (liveEdges (edges mesh), dirtyEdges (edges mesh), length q))")
  subgoal by (intro wf_inv_image wf_lex_prod wf_less_than)
  subgoal by (drule length_pq_pop) simp
  subgoal by (drule length_pq_pop) simp
  subgoal by (simp add: findEdge_Some_less dirtyEdges_refreshEdge)
  subgoal by (simp add: findEdge_Some_less liveEdges_collapseAndMark)
  done

declare simplifyLoop.simps [simp del]


text \<open>
  \<open>meshSimplify()\<close> reads the globals \<open>mesh\<close>, \<open>edgeQueue\<close> and \<open>originalVertexCount\<close>;
  the bound \<open>originalVertexCount / 100\<close> of its loop is the budget.  The result is the
  mesh, the queue and the local \<open>count\<close> (the number of collapses of this call) when
  the function returns.
\<close>

definition meshSimplify_budget ::
  "nat \<Rightarrow> real Mesh \<Rightarrow> real Edge list \<Rightarrow> real Mesh \<times> real Edge list \<times> nat" where
  "meshSimplify_budget budget mesh edgeQueue =
     (if edgeQueue = []
      then (let (es', pushed) = initQueue (vertices mesh) (edges mesh)
            in simplifyLoop budget (mesh\<lparr>edges := es'\<rparr>) pushed 0)
      else simplifyLoop budget mesh edgeQueue 0)"

definition meshSimplify ::
  "nat \<Rightarrow> real Mesh \<Rightarrow> real Edge list \<Rightarrow> real Mesh \<times> real Edge list \<times> nat" where
  "meshSimplify originalVertexCount mesh edgeQueue =
     meshSimplify_budget (originalVertexCount div 100) mesh edgeQueue"

section \<open>The mesh invariants\<close>

definition liveVertex :: "'a Vertex list \<Rightarrow> nat \<Rightarrow> bool" where
  "liveVertex vs i \<longleftrightarrow> i < length vs \<and> \<not> Vertex.isDeleted (vs ! i)"

definition face_ok :: "'a Vertex list \<Rightarrow> 'a Face \<Rightarrow> bool" where
  "face_ok vs f \<longleftrightarrow>
     Face.isDeleted f \<or>
     (Face.v1 f \<noteq> Face.v2 f \<and> Face.v2 f \<noteq> Face.v3 f \<and> Face.v3 f \<noteq> Face.v1 f \<and>
      liveVertex vs (Face.v1 f) \<and> liveVertex vs (Face.v2 f) \<and> liveVertex vs (Face.v3 f))"

definition edge_ok :: "'a Vertex list \<Rightarrow> 'a Edge \<Rightarrow> bool" where
  "edge_ok vs e \<longleftrightarrow>
     Edge.isDeleted e \<or>
     (Edge.v1 e \<noteq> Edge.v2 e \<and> liveVertex vs (Edge.v1 e) \<and> liveVertex vs (Edge.v2 e))"

definition mesh_inv :: "'a Mesh \<Rightarrow> bool" where
  "mesh_inv m \<longleftrightarrow>
     list_all (face_ok (vertices m)) (faces m) \<and> list_all (edge_ok (vertices m)) (edges m)"

text \<open>The mesh states of the claims: built by \<open>buildMesh\<close>, then changed by
  \<open>edgeCollapse\<close> on a live edge of the mesh.  The other two functions through which the
  program changes its mesh, \<open>computeAllQuadrics\<close> and \<open>meshSimplify\<close>, are steps too.\<close>

inductive reachable :: "real Mesh \<Rightarrow> bool" where
  built: "reachable (buildMesh numVertices inVertices uvs normals)"
| collapsed: "reachable m \<Longrightarrow> edgeIndex < length (edges m) \<Longrightarrow>
     \<not> Edge.isDeleted (edges m ! edgeIndex) \<Longrightarrow> reachable (edgeCollapse m edgeIndex)"
| quadrics: "reachable m \<Longrightarrow>
     reachable (m\<lparr>vertices := computeAllQuadrics (vertices m) (faces m)\<rparr>)"
| simplified: "reachable m \<Longrightarrow> reachable (fst (meshSimplify originalVertexCount m edgeQueue))"

text \<open>The live edges as undirected pairs, in array order.\<close>

definition liveEdgePairs :: "'a Edge list \<Rightarrow> (nat \<times> nat) list" where
  "liveEdgePairs es =
     map (\<lambda>e. (min (Edge.v1 e) (Edge.v2 e), max (Edge.v1 e) (Edge.v2 e)))
       (filter (\<lambda>e. \<not> Edge.isDeleted e) es)"

text \<open>The sum that \<open>computeQuadric\<close> accumulates for vertex \<open>i\<close>, starting from \<open>q\<close>.\<close>

definition quadricSum :: "nat \<Rightarrow> ('a::{plus,times}) mat4 \<Rightarrow> 'a Face list \<Rightarrow> 'a mat4" where
  "quadricSum i q fs =
     foldl (\<lambda>q f. if \<not> Face.isDeleted f \<and> (Face.v1 f = i \<or> Face.v2 f = i \<or> Face.v3 f = i)
                   then mat4_add q (outerProduct (planeEquation f) (planeEquation f)) else q) q fs"

section \<open>Two small inputs\<close>

text \<open>One triangle in the plane \<open>z = 0\<close>, as \<open>main\<close> prepares it: \<open>buildMesh\<close>, then
  \<open>computeAllQuadrics\<close>.\<close>

definition triangleCorners :: "real vec3 list" where
  "triangleCorners = [(0, 0, 0), (1, 0, 0), (0, 1, 0)]"

definition triangleUVs :: "real vec2 list" where
  "triangleUVs = [(0, 0), (1, 0), (0, 1)]"

definition triangleNormals :: "real vec3 list" where
  "triangleNormals = [(0, 0, 1), (0, 0, 1), (0, 0, 1)]"

definition triangleBuilt :: "real Mesh" where
  "triangleBuilt = buildMesh 3 triangleCorners triangleUVs triangleNormals"

definition triangleMesh :: "real Mesh" where
  "triangleMesh =
     triangleBuilt\<lparr>vertices := computeAllQuadrics (vertices triangleBuilt) (faces triangleBuilt)\<rparr>"

text \<open>Abbreviations for the records these inputs evaluate to.\<close>

definition triV :: "real vec3 \<Rightarrow> real vec2 \<Rightarrow> real mat4 \<Rightarrow> bool \<Rightarrow> real Vertex" where
  "triV p uv Q d =
     \<lparr>position = p, Vertex.normal = (0, 0, 1), texCoord = uv, color = (1, 1, 1, 1),
      adjacentVertices = [], quadric = Q, Vertex.isDeleted = d\<rparr>"

definition triFace :: "real Face" where
  "triFace = \<lparr>Face.v1 = 0, Face.v2 = 1, Face.v3 = 2, Face.normal = (0, 0, 1),
     planeEquation = (0, 0, 1, 0), Face.isDeleted = False\<rparr>"

definition triK :: "real mat4" where
  "triK = ((0, 0, 0, 0), (0, 0, 0, 0), (0, 0, 1, 0), (0, 0, 0, 0))"

text \<open>The triangle after the lazy initialisation of \<open>meshSimplify\<close> (every edge scored),
  and after the one collapse that a call with budget 0 performs.\<close>

definition triE :: "nat \<Rightarrow> nat \<Rightarrow> real vec3 \<Rightarrow> bool \<Rightarrow> bool \<Rightarrow> real Edge" where
  "triE a b p dirty deleted =
     \<lparr>Edge.v1 = a, Edge.v2 = b, cost = 0, optimalPosition = p, isBoundary = False,
      isDirty = dirty, Edge.isDeleted = deleted\<rparr>"

definition triangleScored :: "real Mesh" where
  "triangleScored =
     triangleMesh\<lparr>edges := fst (initQueue (vertices triangleMesh) (edges triangleMesh))\<rparr>"

definition triangleCollapsed :: "real Mesh" where
  "triangleCollapsed =
     \<lparr>vertices = [triV (0, 0, 0) (1 / 2, 0) mat4_zero False, triV (0, 0, 0) (1, 0) triK True,
                  triV (0, 1, 0) (0, 1) triK False],
      edges = [triE 0 1 (0, 0, 0) False True, triE 0 2 (0, 0, 0) True False,
               triE 0 2 (0, 0, 0) True False],
      faces = [triFace\<lparr>Face.v2 := 0, Face.isDeleted := True\<rparr>], deletedVertices = 1\<rparr>"

text \<open>An edge between two vertices that no face touches: both quadrics are zero.\<close>

definition segmentVertices :: "real Vertex list" where
  "segmentVertices =
     [Vertex_ctor (0, 0, 0) (0, 0, 1) (0, 0) (1, 1, 1, 1),
      Vertex_ctor (2, 0, 0) (0, 0, 1) (1, 0) (1, 1, 1, 1)]"

definition segmentEdge :: "real Edge" where
  "segmentEdge = Edge_ctor 0 1"

text \<open>The unit square of two triangles, as six corners.\<close>

definition squareCorners :: "real vec3 list" where
  "squareCorners = [(0, 0, 0), (1, 0, 0), (1, 1, 0), (0, 0, 0), (1, 1, 0), (0, 1, 0)]"

text \<open>The square as \<open>main\<close> prepares it, after the lazy initialisation of
  \<open>meshSimplify\<close>, and after the first call of \<open>meshSimplify\<close>; a quadric of a vertex in
  the plane \<open>z = 0\<close> is \<open>planeK c\<close>, with \<open>c\<close> the number of its faces.\<close>

definition planeK :: "real \<Rightarrow> real mat4" where
  "planeK c = ((0, 0, 0, 0), (0, 0, 0, 0), (0, 0, c, 0), (0, 0, 0, 0))"

definition planarVertex :: "real Vertex \<Rightarrow> bool" where
  "planarVertex v \<longleftrightarrow>
     quadric v = planeK (fst (snd (snd (fst (snd (snd (quadric v))))))) \<and>
     snd (snd (position v)) = 0"

definition squareUVs :: "real vec2 list" where
  "squareUVs = [(0, 0), (1, 0), (1, 1), (0, 0), (1, 1), (0, 1)]"

definition squareNormals :: "real vec3 list" where
  "squareNormals = [(0, 0, 1), (0, 0, 1), (0, 0, 1), (0, 0, 1), (0, 0, 1), (0, 0, 1)]"

definition squareBuilt :: "real Mesh" where
  "squareBuilt = buildMesh 6 squareCorners squareUVs squareNormals"

definition squareMesh :: "real Mesh" where
  "squareMesh =
     squareBuilt\<lparr>vertices := computeAllQuadrics (vertices squareBuilt) (faces squareBuilt)\<rparr>"

definition sqFace :: "nat \<Rightarrow> nat \<Rightarrow> nat \<Rightarrow> bool \<Rightarrow> real Face" where
  "sqFace a b c d = \<lparr>Face.v1 = a, Face.v2 = b, Face.v3 = c, Face.normal = (0, 0, 1),
     planeEquation = (0, 0, 1, 0), Face.isDeleted = d\<rparr>"

definition squareScored :: "real Mesh" where
  "squareScored =
     squareMesh\<lparr>edges := fst (initQueue (vertices squareMesh) (edges squareMesh))\<rparr>"

definition squareCollapsed :: "real Mesh" where
  "squareCollapsed =
     \<lparr>vertices = [triV (0, 0, 0) (1 / 2, 0) (planeK 1) False, triV (0, 0, 0) (1, 0) (planeK 1) True,
                  triV (1, 1, 0) (1, 1) (planeK 2) False, triV (0, 1, 0) (0, 1) (planeK 1) False],
      edges = [triE 0 1 (0, 0, 0) False True, triE 0 2 (0, 0, 0) True False,
               triE 0 2 (0, 0, 0) True False, triE 2 3 (1, 1, 0) False False,
               triE 0 3 (0, 0, 0) True False],
      faces = [sqFace 0 0 2 True, sqFace 0 2 3 False], deletedVertices = 1\<rparr>"

text \<open>The queue that the first call leaves for the second.\<close>

definition squareQueue :: "real Edge list" where
  "squareQueue =
     [triE 1 2 (1, 0, 0) False False, triE 0 2 (0, 0, 0) False False,
      triE 2 3 (1, 1, 0) False False, triE 0 3 (0, 0, 0) False False,
      triE 0 2 (0, 0, 0) True False, triE 0 2 (0, 0, 0) True False,
      triE 0 3 (0, 0, 0) True False]"

section \<open>Invariants of the loops of the builder\<close>

definition weldInv :: "nat \<Rightarrow> weld_state \<Rightarrow> bool" where
  "weldInv k st \<longleftrightarrow>
     (case st of (vs, spatialHash, vertexMapping) \<Rightarrow>
        (\<forall>j<k. vertexMapping ! j < length vs) \<and>
        (\<forall>key cands. spatialHash key = Some cands \<longrightarrow> (\<forall>c\<in>set cands. c < length vs)) \<and>
        (\<forall>v\<in>set vs. \<not> Vertex.isDeleted v))"

definition faceBuilt :: "real Vertex list \<Rightarrow> real Face \<Rightarrow> bool" where
  "faceBuilt vs f \<longleftrightarrow>
     \<not> Face.isDeleted f \<and>
     Face.v1 f \<noteq> Face.v2 f \<and> Face.v2 f \<noteq> Face.v3 f \<and> Face.v3 f \<noteq> Face.v1 f \<and>
     liveVertex vs (Face.v1 f) \<and> liveVertex vs (Face.v2 f) \<and> liveVertex vs (Face.v3 f)"

definition edgeSetInv :: "real Edge list \<times> (nat \<times> nat \<Rightarrow> bool) \<Rightarrow> bool" where
  "edgeSetInv st \<longleftrightarrow>
     (case st of (es, edgeSet) \<Rightarrow>
        (\<forall>e. edgeSet e \<longleftrightarrow> e \<in> set (map (\<lambda>e. (Edge.v1 e, Edge.v2 e)) es)) \<and>
        distinct (map (\<lambda>e. (Edge.v1 e, Edge.v2 e)) es) \<and>
        (\<forall>e\<in>set es. \<not> Edge.isDeleted e \<and> Edge.v1 e \<le> Edge.v2 e))"

section \<open>Bulk and per-vertex quadrics agree\<close>

lemma length_addQuadric [simp]: "length (addQuadric vs i Kp) = length vs"
  by (simp add: addQuadric_def)

lemma quadric_addQuadric:
  "j < length vs \<Longrightarrow>
   quadric (addQuadric vs i Kp ! j) =
     (if i = j then mat4_add (quadric (vs ! j)) Kp else quadric (vs ! j))"
  by (simp add: addQuadric_def nth_list_update)

lemma length_foldl_computeQuadric_face [simp]:
  "length (foldl (computeQuadric_face i) vs fs) = length vs"
  by (induction fs arbitrary: vs) (simp_all add: computeQuadric_face_def Let_def)

lemma length_foldl_computeAllQuadrics_face [simp]:
  "length (foldl computeAllQuadrics_face vs fs) = length vs"
  by (induction fs arbitrary: vs) (simp_all add: computeAllQuadrics_face_def Let_def)

lemma quadric_computeAllQuadrics_face:
  assumes "i < length vs" and "i < length ws"
    and "quadric (vs ! i) = quadric (ws ! i)"
    and "Face.isDeleted f \<or> face_indices_ok (length vs) f"
  shows "quadric (computeAllQuadrics_face vs f ! i) = quadric (computeQuadric_face i ws f ! i)"
  using assms
  by (auto simp: computeAllQuadrics_face_def computeQuadric_face_def Let_def
      quadric_addQuadric face_indices_ok_def)

lemma quadric_foldl_agree:
  "i < length vs \<Longrightarrow> i < length ws \<Longrightarrow> quadric (vs ! i) = quadric (ws ! i) \<Longrightarrow>
   list_all (\<lambda>f. Face.isDeleted f \<or> face_indices_ok (length vs) f) fs \<Longrightarrow>
   quadric (foldl computeAllQuadrics_face vs fs ! i) =
   quadric (foldl (computeQuadric_face i) ws fs ! i)"
proof (induction fs arbitrary: vs ws)
  case Nil
  then show ?case by simp
next
  case (Cons f fs)
  have len1: "length (computeAllQuadrics_face vs f) = length vs"
    using length_foldl_computeAllQuadrics_face [of vs "[f]"] by simp
  have len2: "length (computeQuadric_face i ws f) = length ws"
    using length_foldl_computeQuadric_face [of i ws "[f]"] by simp
  have step: "quadric (computeAllQuadrics_face vs f ! i) = quadric (computeQuadric_face i ws f ! i)"
    using Cons.prems by (intro quadric_computeAllQuadrics_face) simp_all
  show ?case
    using Cons.prems step len1 len2
    by (simp add: Cons.IH)
qed

lemma quadrics_agree:
  assumes "i < length vs"
    and "list_all (\<lambda>f. Face.isDeleted f \<or> face_indices_ok (length vs) f) fs"
  shows "quadric (computeAllQuadrics vs fs ! i) = quadric (computeQuadric i vs fs ! i)"
  unfolding computeAllQuadrics_def computeQuadric_def
  using assms by (intro quadric_foldl_agree) simp_all

text \<open>
  Claim C6.  On a mesh whose live faces have three pairwise distinct, valid vertex
  indices (the face invariant of the data model, which every mesh the program reaches
  has: \<open>quadrics_agree_reachable\<close> below), the one-pass \<open>computeAllQuadrics\<close> leaves at
  every vertex index exactly the quadric that the per-vertex \<open>computeQuadric\<close>
  computes for that vertex.  The scalar type is arbitrary: only the order of the
  additions matters, and it is the same in both.
\<close>

theorem computeAllQuadrics_eq_computeQuadric:
  assumes "i < length vs"
    and "list_all (\<lambda>f. Face.isDeleted f \<or> face_indices_ok (length vs) f) fs"
  shows "quadric (computeAllQuadrics vs fs ! i) = quadric (computeQuadric i vs fs ! i)"
  using assms by (rule quadrics_agree)

subsection \<open>The triangle, evaluated\<close>

lemma upt_3: "[0..<3] = [0, 1, 2]"
  by (simp add: upt_rec)

lemma replicate_3: "replicate 3 x = [x, x, x]"
  by (simp add: numeral_3_eq_3)

lemma list_update_1: "(x # y # xs)[1 := v] = x # v # xs"
  by simp

lemma list_update_2: "(x # y # z # xs)[2 := v] = x # y # v # xs"
  by (simp add: numeral_2_eq_2)

lemma triangle_weld:
  "weldVertices 3 triangleCorners triangleUVs triangleNormals =
     ([triV (0, 0, 0) (0, 0) mat4_zero False, triV (1, 0, 0) (1, 0) mat4_zero False,
       triV (0, 1, 0) (0, 1) mat4_zero False],
      [(0, 0, 0) \<mapsto> [0], (1000, 0, 0) \<mapsto> [Suc 0], (0, 1000, 0) \<mapsto> [2]],
      [0, Suc 0, 2])"
  by (simp add: weldVertices_def upt_3 replicate_3 list_update_2 triangleCorners_def
      triangleUVs_def triangleNormals_def weldVertex_def gridKey_def GRID_SIZE_def Let_def
      Vertex_ctor_def triV_def numeral_2_eq_2)

lemma triangle_faces:
  "buildFaces 3 [triV (0, 0, 0) (0, 0) mat4_zero False, triV (1, 0, 0) (1, 0) mat4_zero False,
       triV (0, 1, 0) (0, 1) mat4_zero False] [0, Suc 0, 2] = [triFace]"
  by (simp add: buildFaces_def emitFace_def Face_ctor_def normalize_def vec4_of_def triV_def
      triFace_def Let_def)

lemma triangle_edges:
  "uniqueEdges [triFace] = [Edge_ctor 0 1, Edge_ctor 1 2, Edge_ctor 0 2]"
  by (simp add: uniqueEdges_def extractEdges_def addEdge_def triFace_def Let_def numeral_2_eq_2)

lemma triangleBuilt_eq:
  "triangleBuilt =
     \<lparr>vertices = [triV (0, 0, 0) (0, 0) mat4_zero False, triV (1, 0, 0) (1, 0) mat4_zero False,
                  triV (0, 1, 0) (0, 1) mat4_zero False],
      edges = [Edge_ctor 0 1, Edge_ctor 1 2, Edge_ctor 0 2],
      faces = [triFace], deletedVertices = 0\<rparr>"
  by (simp add: triangleBuilt_def buildMesh_def triangle_weld triangle_faces triangle_edges)

lemma triangleMesh_eq:
  "triangleMesh =
     \<lparr>vertices = [triV (0, 0, 0) (0, 0) triK False, triV (1, 0, 0) (1, 0) triK False,
                  triV (0, 1, 0) (0, 1) triK False],
      edges = [Edge_ctor 0 1, Edge_ctor 1 2, Edge_ctor 0 2],
      faces = [triFace], deletedVertices = 0\<rparr>"
  by (simp add: triangleMesh_def triangleBuilt_eq computeAllQuadrics_def
      computeAllQuadrics_face_def addQuadric_def triFace_def triV_def triK_def mat4_zero_def
      Let_def)


lemma triangle_initQueue:
  "initQueue (vertices triangleMesh) (edges triangleMesh) =
     ([triE 0 (Suc 0) (0, 0, 0) False False, triE (Suc 0) 2 (1, 0, 0) False False, triE 0 2 (0, 0, 0) False False],
      [triE 0 (Suc 0) (0, 0, 0) False False, triE (Suc 0) 2 (1, 0, 0) False False, triE 0 2 (0, 0, 0) False False])"
  by (simp add: triangleMesh_eq Edge_ctor_def triE_def triV_def triK_def computeCost_def Q_bar_of_def determinant_def QEM_EPSILON_def FLT_MAX_def
      tryCandidate_def vec4_of_def vec3_of_def Let_def numeral_2_eq_2)

lemma triangleScored_eq:
  "triangleScored =
     \<lparr>vertices = [triV (0, 0, 0) (0, 0) triK False, triV (1, 0, 0) (1, 0) triK False,
                  triV (0, 1, 0) (0, 1) triK False],
      edges = [triE 0 (Suc 0) (0, 0, 0) False False, triE (Suc 0) 2 (1, 0, 0) False False,
               triE 0 2 (0, 0, 0) False False],
      faces = [triFace], deletedVertices = 0\<rparr>"
  by (simp add: triangleScored_def triangle_initQueue) (simp add: triangleMesh_eq)

lemma triangle_collapse:
  "edgeCollapse triangleScored 0 =
     \<lparr>vertices = [triV (0, 0, 0) (1 / 2, 0) mat4_zero False, triV (0, 0, 0) (1, 0) triK True,
                  triV (0, 1, 0) (0, 1) triK False],
      edges = [triE 0 (Suc 0) (0, 0, 0) False True, triE 0 2 (0, 0, 0) False False,
               triE 0 2 (0, 0, 0) False False],
      faces = [triFace\<lparr>Face.v2 := 0, Face.isDeleted := True\<rparr>], deletedVertices = 1\<rparr>"
  by (simp add: triangleScored_eq edgeCollapse_def moveVertices_def interpolateAttributes_def
      interpolationParameter_def triE_def triV_def triK_def triFace_def
      remapEdge_def remapFace_def recomputeEdge_def computeQuadric_def computeQuadric_face_def
      length3_def mix_def mat4_zero_def computeCost_def Q_bar_of_def determinant_def QEM_EPSILON_def FLT_MAX_def
      tryCandidate_def vec4_of_def vec3_of_def Let_def numeral_2_eq_2)


lemma triangle_collapseAndMark:
  "collapseAndMark triangleScored 0 =
     (triangleCollapsed, [triE 0 2 (0, 0, 0) True False, triE 0 2 (0, 0, 0) True False])"
  by (simp add: collapseAndMark_def triangle_collapse triangleCollapsed_def triE_def Let_def)

lemma triangle_pq:
  "pq_top [triE 0 (Suc 0) (0, 0, 0) False False, triE (Suc 0) 2 (1, 0, 0) False False,
           triE 0 2 (0, 0, 0) False False] = triE 0 (Suc 0) (0, 0, 0) False False"
  "pq_pop [triE 0 (Suc 0) (0, 0, 0) False False, triE (Suc 0) 2 (1, 0, 0) False False,
           triE 0 2 (0, 0, 0) False False] =
     [triE (Suc 0) 2 (1, 0, 0) False False, triE 0 2 (0, 0, 0) False False]"
  by (simp_all add: pq_top_def pq_pop_def triE_def)

lemma triangle_findEdge:
  "findEdge (edges triangleScored) (triE 0 (Suc 0) (0, 0, 0) False False) = Some 0"
  by (simp add: findEdge_def triangleScored_eq upt_3 triE_def)

lemma triangle_meshSimplify:
  "meshSimplify_budget 0 triangleMesh [] =
     (triangleCollapsed,
      [triE (Suc 0) 2 (1, 0, 0) False False, triE 0 2 (0, 0, 0) False False,
       triE 0 2 (0, 0, 0) True False, triE 0 2 (0, 0, 0) True False], 1)"
proof -
  have "meshSimplify_budget 0 triangleMesh [] =
      simplifyLoop 0 triangleScored
        [triE 0 (Suc 0) (0, 0, 0) False False, triE (Suc 0) 2 (1, 0, 0) False False,
         triE 0 2 (0, 0, 0) False False] 0"
    by (simp add: meshSimplify_budget_def triangle_initQueue triangleScored_def)
  also have "\<dots> = (fst (collapseAndMark triangleScored 0),
      [triE (Suc 0) 2 (1, 0, 0) False False, triE 0 2 (0, 0, 0) False False] @
      snd (collapseAndMark triangleScored 0), 1)"
    by (subst simplifyLoop.simps)
      (simp add: triangle_pq triangle_findEdge, simp add: triangleScored_eq triE_def)
  finally show ?thesis
    by (simp add: triangle_collapseAndMark)
qed

text \<open>Witness for C6: vertex 0 of the triangle.\<close>

theorem computeAllQuadrics_eq_computeQuadric_witness:
  "0 < length (vertices triangleBuilt) \<and>
   list_all (\<lambda>f. Face.isDeleted f \<or> face_indices_ok (length (vertices triangleBuilt)) f)
     (faces triangleBuilt) \<and>
   quadric (computeAllQuadrics (vertices triangleBuilt) (faces triangleBuilt) ! 0) =
   quadric (computeQuadric 0 (vertices triangleBuilt) (faces triangleBuilt) ! 0)"
proof -
  have h1: "0 < length (vertices triangleBuilt)"
    by (simp add: triangleBuilt_eq)
  have h2: "list_all (\<lambda>f. Face.isDeleted f \<or> face_indices_ok (length (vertices triangleBuilt)) f)
     (faces triangleBuilt)"
    by (simp add: triangleBuilt_eq triFace_def face_indices_ok_def)
  from computeAllQuadrics_eq_computeQuadric [OF h1 h2] h1 h2 show ?thesis by simp
qed

section \<open>What a collapse changes\<close>

lemma foldl_computeQuadric_face:
  "foldl (computeQuadric_face i) vs fs = vs[i := (vs ! i)\<lparr>quadric := quadricSum i (quadric (vs ! i)) fs\<rparr>]"
proof (cases "i < length vs")
  case False
  have "foldl (computeQuadric_face i) vs fs = vs"
    using False
    by (induction fs)
      (simp_all add: computeQuadric_face_def addQuadric_def Let_def list_update_beyond)
  with False show ?thesis by (simp add: list_update_beyond)
next
  case True
  then show ?thesis
  proof (induction fs arbitrary: vs)
    case Nil
    then show ?case by (simp add: quadricSum_def)
  next
    case (Cons f fs)
    let ?vs' = "computeQuadric_face i vs f"
    have len: "i < length ?vs'"
      using Cons.prems by (simp add: computeQuadric_face_def Let_def)
    show ?case
      using Cons.prems
      by (simp add: Cons.IH [OF len])
        (simp add: computeQuadric_face_def addQuadric_def Let_def quadricSum_def)
  qed
qed

lemma computeQuadric_eq:
  "computeQuadric a vs fs = vs[a := (vs ! a)\<lparr>quadric := quadricSum a mat4_zero fs\<rparr>]"
  by (cases "a < length vs")
    (simp_all add: computeQuadric_def foldl_computeQuadric_face list_update_beyond)

lemma nth_update_preserves:
  assumes "\<And>v. f (g v) = f v"
  shows "f (xs[i := g (xs ! i)] ! k) = f (xs ! k)"
  by (cases "i < length xs"; cases "i = k") (simp_all add: assms list_update_beyond)

lemma nth_moveVertices:
  assumes "\<And>v p. f (v\<lparr>position := p\<rparr>) = f v" and "\<And>v. f (v\<lparr>Vertex.isDeleted := True\<rparr>) = f v"
  shows "f (moveVertices vs a b newPosition ! k) = f (vs ! k)"
proof -
  let ?vs1 = "vs[a := (vs ! a)\<lparr>position := newPosition\<rparr>]"
  let ?vs2 = "?vs1[b := (?vs1 ! b)\<lparr>position := newPosition\<rparr>]"
  let ?vs3 = "?vs2[b := (?vs2 ! b)\<lparr>Vertex.isDeleted := True\<rparr>]"
  have "f (?vs3 ! k) = f (?vs2 ! k)"
    by (rule nth_update_preserves [where g = "\<lambda>v. v\<lparr>Vertex.isDeleted := True\<rparr>"]) (rule assms)
  also have "\<dots> = f (?vs1 ! k)"
    by (rule nth_update_preserves [where g = "\<lambda>v. v\<lparr>position := newPosition\<rparr>"]) (rule assms)
  also have "\<dots> = f (vs ! k)"
    by (rule nth_update_preserves [where g = "\<lambda>v. v\<lparr>position := newPosition\<rparr>"]) (rule assms)
  finally show ?thesis by (simp add: moveVertices_def Let_def)
qed

lemma nth_computeQuadric:
  assumes "\<And>v q. f (v\<lparr>quadric := q\<rparr>) = f v"
  shows "f (computeQuadric a vs fs ! k) = f (vs ! k)"
  unfolding computeQuadric_eq
  by (rule nth_update_preserves [where g = "\<lambda>v. v\<lparr>quadric := quadricSum a mat4_zero fs\<rparr>"])
    (rule assms)

lemma nth_interpolateAttributes:
  assumes "\<And>v c. f (v\<lparr>texCoord := c\<rparr>) = f v" and "\<And>v c. f (v\<lparr>color := c\<rparr>) = f v"
  shows "f (interpolateAttributes vs a b newPosition ! k) = f (vs ! k)"
proof -
  define t where "t = interpolationParameter (position (vs ! a)) (position (vs ! b)) newPosition"
  let ?vs5 = "vs[a := (vs ! a)\<lparr>texCoord := mix2 (texCoord (vs ! a)) (texCoord (vs ! b)) t\<rparr>]"
  let ?vs6 = "?vs5[a := (?vs5 ! a)\<lparr>color := mix4 (color (?vs5 ! a)) (color (?vs5 ! b)) t\<rparr>]"
  have "f (?vs6 ! k) = f (?vs5 ! k)"
    by (rule nth_update_preserves
        [where g = "\<lambda>v. v\<lparr>color := mix4 (color (?vs5 ! a)) (color (?vs5 ! b)) t\<rparr>"])
      (rule assms)
  also have "\<dots> = f (vs ! k)"
    by (rule nth_update_preserves
        [where g = "\<lambda>v. v\<lparr>texCoord := mix2 (texCoord (vs ! a)) (texCoord (vs ! b)) t\<rparr>"])
      (rule assms)
  finally show ?thesis by (simp add: interpolateAttributes_def Let_def t_def)
qed

lemma length_moveVertices [simp]: "length (moveVertices vs a b newPosition) = length vs"
  by (simp add: moveVertices_def Let_def)

lemma length_computeQuadric [simp]: "length (computeQuadric a vs fs) = length vs"
  by (simp add: computeQuadric_eq)

lemma length_interpolateAttributes [simp]:
  "length (interpolateAttributes vs a b newPosition) = length vs"
  by (simp add: interpolateAttributes_def Let_def)

lemma vertices_edgeCollapse:
  "vertices (edgeCollapse m i) =
     interpolateAttributes (verticesAfterQuadric m i) (Edge.v1 (edges m ! i))
       (Edge.v2 (edges m ! i)) (optimalPosition (edges m ! i))"
  by (simp add: edgeCollapse_def verticesAfterQuadric_def Let_def case_prod_beta)

lemma length_verticesAfterQuadric [simp]:
  "length (verticesAfterQuadric m i) = length (vertices m)"
  by (simp add: verticesAfterQuadric_def Let_def)

lemma length_vertices_edgeCollapse [simp]:
  "length (vertices (edgeCollapse m i)) = length (vertices m)"
  by (simp add: vertices_edgeCollapse)

lemma position_moveVertices:
  "a < length vs \<Longrightarrow> position (moveVertices vs a b newPosition ! a) = newPosition"
  "b < length vs \<Longrightarrow> position (moveVertices vs a b newPosition ! b) = newPosition"
  by (simp_all add: moveVertices_def Let_def nth_list_update)

lemma position_verticesAfterQuadric:
  "Edge.v1 (edges m ! i) < length (vertices m) \<Longrightarrow>
     position (verticesAfterQuadric m i ! Edge.v1 (edges m ! i)) = optimalPosition (edges m ! i)"
  "Edge.v2 (edges m ! i) < length (vertices m) \<Longrightarrow>
     position (verticesAfterQuadric m i ! Edge.v2 (edges m ! i)) = optimalPosition (edges m ! i)"
  by (simp_all add: verticesAfterQuadric_def Let_def nth_computeQuadric position_moveVertices)

lemma faces_edgeCollapse:
  "faces (edgeCollapse m i) =
     map (remapFace (Edge.v1 (edges m ! i)) (Edge.v2 (edges m ! i))) (faces m)"
  by (simp add: edgeCollapse_def Let_def case_prod_beta)

lemma planeEquation_remapFace [simp]: "planeEquation (remapFace a b f) = planeEquation f"
  by (simp add: remapFace_def Let_def)

lemma planeEquation_edgeCollapse:
  "map planeEquation (faces (edgeCollapse m i)) = map planeEquation (faces m)"
  by (simp add: faces_edgeCollapse)

lemma planeEquation_foldl_edgeCollapse:
  "map planeEquation (faces (foldl edgeCollapse m is)) = map planeEquation (faces m)"
  by (induction "is" arbitrary: m) (simp_all add: planeEquation_edgeCollapse)

lemma simplifyLoop_preserves:
  assumes refresh: "\<And>m i. P m \<Longrightarrow> i < length (edges m) \<Longrightarrow> \<not> Edge.isDeleted (edges m ! i) \<Longrightarrow>
      P (refreshEdge m i)"
    and collapse: "\<And>m i. P m \<Longrightarrow> i < length (edges m) \<Longrightarrow> \<not> Edge.isDeleted (edges m ! i) \<Longrightarrow>
      P (fst (collapseAndMark m i))"
  shows "P m \<Longrightarrow> P (fst (simplifyLoop budget m q count))"
proof (induction budget m q count rule: simplifyLoop.induct)
  case (1 budget mesh q count)
  show ?case
  proof (cases "q = []")
    case True
    with "1.prems" show ?thesis by (subst simplifyLoop.simps) simp
  next
    case nonempty: False
    show ?thesis
    proof (cases "findEdge (edges mesh) (pq_top q)")
      case None
      with nonempty "1.IH"(1) "1.prems" show ?thesis
        by (subst simplifyLoop.simps) simp
    next
      case (Some edgeIndex)
      then have less: "edgeIndex < length (edges mesh)" by (rule findEdge_Some_less)
      show ?thesis
      proof (cases "Edge.isDeleted (edges mesh ! edgeIndex)")
        case True
        with nonempty Some "1.IH"(2) "1.prems" show ?thesis
          by (subst simplifyLoop.simps) simp
      next
        case live: False
        show ?thesis
        proof (cases "isDirty (edges mesh ! edgeIndex)")
          case True
          from refresh [OF "1.prems" less live]
          have "P (fst (simplifyLoop budget (refreshEdge mesh edgeIndex)
                (pq_pop q @ [edges (refreshEdge mesh edgeIndex) ! edgeIndex]) count))"
            using nonempty Some live True by (intro "1.IH"(3)) simp_all
          with nonempty Some live True show ?thesis
            by (subst simplifyLoop.simps) simp
        next
          case clean: False
          note step = collapse [OF "1.prems" less live]
          show ?thesis
          proof (cases "budget \<le> Suc count")
            case True
            with nonempty Some live clean step show ?thesis
              by (subst simplifyLoop.simps) simp
          next
            case False
            have "P (fst (simplifyLoop budget (fst (collapseAndMark mesh edgeIndex))
                (pq_pop q @ snd (collapseAndMark mesh edgeIndex)) (Suc count)))"
              using nonempty Some live clean False step by (intro "1.IH"(4)) simp_all
            with nonempty Some live clean False show ?thesis
              by (subst simplifyLoop.simps) simp
          qed
        qed
      qed
    qed
  qed
qed


lemma faces_refreshEdge [simp]: "faces (refreshEdge m i) = faces m"
  by (simp add: refreshEdge_def)

lemma faces_collapseAndMark: "faces (fst (collapseAndMark m i)) = faces (edgeCollapse m i)"
  by (simp add: collapseAndMark_def Let_def case_prod_beta)

lemma planeEquation_simplifyLoop:
  "map planeEquation (faces (fst (simplifyLoop budget m q count))) = map planeEquation (faces m)"
proof -
  define P where "P = (\<lambda>m' :: real Mesh. map planeEquation (faces m') = map planeEquation (faces m))"
  have "P (fst (simplifyLoop budget m q count))"
  proof (rule simplifyLoop_preserves)
    show "P m" by (simp add: P_def)
  qed (simp_all add: P_def faces_collapseAndMark planeEquation_edgeCollapse)
  then show ?thesis by (simp add: P_def)
qed

text \<open>
  Claim C7.  No operation of the simplifier writes a face's \<open>planeEquation\<close>: the
  planes of all faces, live or deleted, are the same list after one
  \<open>edgeCollapse\<close>, after any sequence of them, after a whole call of \<open>meshSimplify\<close>,
  and \<open>initializeQuadrics\<close> and \<open>initializeEdgeCosts\<close> leave the faces as they are.
  (\<open>computeQuadric\<close>, \<open>computeAllQuadrics\<close> and \<open>computeCost\<close> take the faces read-only
  and return vertices or an edge.)
\<close>

theorem planeEquation_never_modified:
  "map planeEquation (faces (edgeCollapse m edgeIndex)) = map planeEquation (faces m) \<and>
   map planeEquation (faces (foldl edgeCollapse m edgeIndices)) = map planeEquation (faces m) \<and>
   map planeEquation (faces (fst (meshSimplify originalVertexCount m edgeQueue))) =
     map planeEquation (faces m) \<and>
   faces (initializeQuadrics m) = faces m \<and>
   faces (initializeEdgeCosts m) = faces m"
  by (simp add: planeEquation_edgeCollapse planeEquation_foldl_edgeCollapse
      meshSimplify_def meshSimplify_budget_def planeEquation_simplifyLoop
      initializeQuadrics_def initializeEdgeCosts_def case_prod_beta Let_def)

text \<open>
  Claim C10.  \<open>edgeCollapse\<close> writes the edge's \<open>optimalPosition\<close> into both endpoint
  records: the surviving \<open>v1\<close> and the deleted \<open>v2\<close> have that position when the
  function returns.
\<close>

theorem edgeCollapse_positions:
  assumes "i < length (edges m)"
    and "Edge.v1 (edges m ! i) < length (vertices m)"
    and "Edge.v2 (edges m ! i) < length (vertices m)"
  shows "position (vertices (edgeCollapse m i) ! Edge.v1 (edges m ! i)) = optimalPosition (edges m ! i) \<and>
         position (vertices (edgeCollapse m i) ! Edge.v2 (edges m ! i)) = optimalPosition (edges m ! i)"
  using assms
  by (simp add: vertices_edgeCollapse nth_interpolateAttributes position_verticesAfterQuadric)

text \<open>Witness for C10: edge 0 of the triangle.\<close>

theorem edgeCollapse_positions_witness:
  "0 < length (edges triangleMesh) \<and>
   Edge.v1 (edges triangleMesh ! 0) < length (vertices triangleMesh) \<and>
   Edge.v2 (edges triangleMesh ! 0) < length (vertices triangleMesh) \<and>
   position (vertices (edgeCollapse triangleMesh 0) ! 0) = optimalPosition (edges triangleMesh ! 0) \<and>
   position (vertices (edgeCollapse triangleMesh 0) ! 1) = optimalPosition (edges triangleMesh ! 0)"
proof -
  have h1: "0 < length (edges triangleMesh)"
    by (simp add: triangleMesh_eq)
  have h2: "Edge.v1 (edges triangleMesh ! 0) < length (vertices triangleMesh)"
    by (simp add: triangleMesh_eq Edge_ctor_def)
  have h3: "Edge.v2 (edges triangleMesh ! 0) < length (vertices triangleMesh)"
    by (simp add: triangleMesh_eq Edge_ctor_def)
  have v: "Edge.v1 (edges triangleMesh ! 0) = 0" "Edge.v2 (edges triangleMesh ! 0) = 1"
    by (simp_all add: triangleMesh_eq Edge_ctor_def)
  from edgeCollapse_positions [OF h1 h2 h3] h1 h2 h3 show ?thesis
    by (simp only: v)
qed

section \<open>The cost of an edge between two vertices of zero quadric\<close>

lemma tryCandidate_zero:
  "tryCandidate mat4_zero st c = (if 0 < fst st then (0, vec4_of c 1) else st)"
  by (cases c) (simp add: tryCandidate_def mat4_zero_def vec4_of_def Let_def)

lemma determinant_Q_bar_zero: "determinant (Q_bar_of mat4_zero) = 0"
  by (simp add: determinant_def Q_bar_of_def mat4_zero_def)

lemma vec3_of_vec4_of [simp]: "vec3_of (vec4_of v w) = v"
  by (cases v) (simp add: vec3_of_def vec4_of_def)

lemma mat4_add_zero [simp]: "mat4_add mat4_zero mat4_zero = (mat4_zero :: real mat4)"
  by (simp add: mat4_zero_def)

text \<open>
  Claim C3, as the code has it.  For an edge whose two endpoints carry the zero quadric
  the solver takes the singular branch; all three candidates cost 0, and since a
  candidate only replaces the current one when its cost is strictly smaller, the first
  candidate stays: \<open>optimalPosition\<close> is the position of \<open>edge.v1\<close> (not the midpoint),
  and \<open>cost\<close> is 0.
\<close>

theorem computeCost_zero_quadrics:
  assumes "Edge.v1 e < length vs" and "Edge.v2 e < length vs"
    and "quadric (vs ! Edge.v1 e) = mat4_zero" and "quadric (vs ! Edge.v2 e) = mat4_zero"
  shows "optimalPosition (computeCost e vs) = position (vs ! Edge.v1 e) \<and>
         cost (computeCost e vs) = 0"
proof -
  have det: "\<not> \<bar>determinant (Q_bar_of mat4_zero)\<bar> > QEM_EPSILON"
    by (simp add: determinant_Q_bar_zero QEM_EPSILON_def)
  have "foldl (tryCandidate mat4_zero) (FLT_MAX, undefined) [p1, p2, p3] = (0, vec4_of p1 1)"
    for p1 p2 p3
    by (simp add: tryCandidate_zero FLT_MAX_def)
  with det assms(3,4) show ?thesis
    by (simp add: computeCost_def Let_def del: mat4_add.simps)
qed

text \<open>Witness for C3: the segment from \<open>(0,0,0)\<close> to \<open>(2,0,0)\<close>.\<close>

theorem computeCost_zero_quadrics_witness:
  "Edge.v1 segmentEdge < length segmentVertices \<and> Edge.v2 segmentEdge < length segmentVertices \<and>
   quadric (segmentVertices ! Edge.v1 segmentEdge) = mat4_zero \<and>
   quadric (segmentVertices ! Edge.v2 segmentEdge) = mat4_zero \<and>
   optimalPosition (computeCost segmentEdge segmentVertices) = (0, 0, 0) \<and>
   cost (computeCost segmentEdge segmentVertices) = 0"
proof -
  have h: "Edge.v1 segmentEdge < length segmentVertices" "Edge.v2 segmentEdge < length segmentVertices"
    "quadric (segmentVertices ! Edge.v1 segmentEdge) = mat4_zero"
    "quadric (segmentVertices ! Edge.v2 segmentEdge) = mat4_zero"
    by (simp_all add: segmentEdge_def segmentVertices_def Edge_ctor_def Vertex_ctor_def)
  have p: "position (segmentVertices ! Edge.v1 segmentEdge) = (0, 0, 0)"
    by (simp add: segmentEdge_def segmentVertices_def Edge_ctor_def Vertex_ctor_def)
  from computeCost_zero_quadrics [OF h] h p show ?thesis by simp
qed

text \<open>Counterexample to C3 as stated: on that segment both quadrics are zero, the solver
  returns \<open>(0,0,0)\<close>, and the midpoint is \<open>(1,0,0)\<close>.\<close>

theorem computeCost_midpoint_counterexample:
  "quadric (segmentVertices ! Edge.v1 segmentEdge) = mat4_zero \<and>
   quadric (segmentVertices ! Edge.v2 segmentEdge) = mat4_zero \<and>
   optimalPosition (computeCost segmentEdge segmentVertices) = (0, 0, 0) \<and>
   vec3_scale (vec3_add (position (segmentVertices ! Edge.v1 segmentEdge))
                        (position (segmentVertices ! Edge.v2 segmentEdge))) (1 / 2) = (1, 0, 0)"
  by (simp add: segmentEdge_def segmentVertices_def Edge_ctor_def Vertex_ctor_def
      computeCost_def Q_bar_of_def determinant_def QEM_EPSILON_def FLT_MAX_def
      tryCandidate_def vec4_of_def vec3_of_def Let_def mat4_zero_def)

section \<open>Welding the unit square\<close>

lemma upt_6: "[0..<6] = [0, 1, 2, 3, 4, 5]"
  by (simp add: upt_rec)

lemma replicate_6: "replicate 6 x = [x, x, x, x, x, x]"
  by (simp add: numeral_eq_Suc)

lemma square_weld:
  "weldVertices 6 squareCorners uvs normals =
     ([Vertex_ctor (0, 0, 0) (normals ! 0) (uvs ! 0) (1, 1, 1, 1),
       Vertex_ctor (1, 0, 0) (normals ! 1) (uvs ! 1) (1, 1, 1, 1),
       Vertex_ctor (1, 1, 0) (normals ! 2) (uvs ! 2) (1, 1, 1, 1),
       Vertex_ctor (0, 1, 0) (normals ! 5) (uvs ! 5) (1, 1, 1, 1)],
      [(0, 0, 0) \<mapsto> [0], (1000, 0, 0) \<mapsto> [1], (1000, 1000, 0) \<mapsto> [2],
       (0, 1000, 0) \<mapsto> [3]],
      [0, 1, 2, 0, 2, 3])"
  by (simp add: weldVertices_def upt_6 replicate_6 squareCorners_def weldVertex_def
      gridKey_def GRID_SIZE_def EPSILON_def distance_def length3_def Let_def Vertex_ctor_def
      numeral_eq_Suc)

lemma square_face_starts: "map (\<lambda>t. 3 * t) [0..<(6 + 2) div 3] = [0, 3::nat]"
  by (simp add: upt_rec)

lemma square_faces:
  "buildFaces 6 vs [0, Suc 0, 2, 0, 2, 3] =
     [Face_ctor 0 1 2 (position (vs ! 0)) (position (vs ! 1)) (position (vs ! 2)),
      Face_ctor 0 2 3 (position (vs ! 0)) (position (vs ! 2)) (position (vs ! 3))]"
  by (simp add: buildFaces_def emitFace_def upt_rec)

lemma square_edges:
  "uniqueEdges [Face_ctor 0 (Suc 0) 2 p0 p1 p2, Face_ctor 0 2 3 q0 q1 q2] =
     [Edge_ctor 0 1, Edge_ctor 1 2, Edge_ctor 0 2, Edge_ctor 2 3, Edge_ctor 0 3]"
  by (simp add: uniqueEdges_def extractEdges_def addEdge_def Face_ctor_def Let_def
      numeral_2_eq_2 numeral_3_eq_3)


text \<open>
  Claim C8.  On the six corners of the unit square (any UVs and normals) \<open>buildMesh\<close>
  welds the two shared corners: 4 vertices, 2 faces \<open>(0,1,2)\<close> and \<open>(0,2,3)\<close>, and 5
  edges, the diagonal \<open>(0,2)\<close> once.
\<close>

theorem buildMesh_unit_square:
  "length (vertices (buildMesh 6 squareCorners uvs normals)) = 4 \<and>
   length (faces (buildMesh 6 squareCorners uvs normals)) = 2 \<and>
   length (edges (buildMesh 6 squareCorners uvs normals)) = 5 \<and>
   map position (vertices (buildMesh 6 squareCorners uvs normals)) =
     [(0, 0, 0), (1, 0, 0), (1, 1, 0), (0, 1, 0)] \<and>
   map (\<lambda>f. (Face.v1 f, Face.v2 f, Face.v3 f)) (faces (buildMesh 6 squareCorners uvs normals)) =
     [(0, 1, 2), (0, 2, 3)] \<and>
   map (\<lambda>e. (Edge.v1 e, Edge.v2 e)) (edges (buildMesh 6 squareCorners uvs normals)) =
     [(0, 1), (1, 2), (0, 2), (2, 3), (0, 3)]"
  by (simp add: buildMesh_def square_weld square_faces square_edges)
    (simp add: Vertex_ctor_def Face_ctor_def Edge_ctor_def Let_def)

section \<open>The number of collapses of one call\<close>

lemma deletedVertices_edgeCollapse [simp]:
  "deletedVertices (edgeCollapse m i) = deletedVertices m + 1"
  by (simp add: edgeCollapse_def Let_def case_prod_beta)

lemma deletedVertices_collapseAndMark [simp]:
  "deletedVertices (fst (collapseAndMark m i)) = deletedVertices m + 1"
  by (simp add: collapseAndMark_def Let_def case_prod_beta)

lemma deletedVertices_refreshEdge [simp]:
  "deletedVertices (refreshEdge m i) = deletedVertices m"
  by (simp add: refreshEdge_def)

lemma simplifyLoop_count:
  "snd (snd (simplifyLoop budget m q count)) \<le> max budget (Suc count) \<and>
   count \<le> snd (snd (simplifyLoop budget m q count)) \<and>
   deletedVertices (fst (simplifyLoop budget m q count)) + count =
     deletedVertices m + snd (snd (simplifyLoop budget m q count))"
proof (induction budget m q count rule: simplifyLoop.induct)
  case (1 budget mesh q count)
  show ?case
  proof (cases "q = []")
    case True
    then show ?thesis by (subst (1 2 3 4) simplifyLoop.simps) simp
  next
    case nonempty: False
    show ?thesis
    proof (cases "findEdge (edges mesh) (pq_top q)")
      case None
      with nonempty "1.IH"(1) show ?thesis
        by (subst (1 2 3 4) simplifyLoop.simps) simp
    next
      case (Some edgeIndex)
      show ?thesis
      proof (cases "Edge.isDeleted (edges mesh ! edgeIndex)")
        case True
        with nonempty Some "1.IH"(2) show ?thesis
          by (subst (1 2 3 4) simplifyLoop.simps) simp
      next
        case live: False
        show ?thesis
        proof (cases "isDirty (edges mesh ! edgeIndex)")
          case True
          with nonempty Some live "1.IH"(3) show ?thesis
            by (subst (1 2 3 4) simplifyLoop.simps) simp
        next
          case clean: False
          show ?thesis
          proof (cases "budget \<le> Suc count")
            case True
            with nonempty Some live clean show ?thesis
              by (subst (1 2 3 4) simplifyLoop.simps) simp
          next
            case False
            let ?m' = "fst (collapseAndMark mesh edgeIndex)"
            let ?q' = "pq_pop q @ snd (collapseAndMark mesh edgeIndex)"
            note IH = "1.IH"(4) [OF nonempty Some live clean False]
            from False have "max budget (Suc (Suc count)) = budget" by simp
            with IH have "snd (snd (simplifyLoop budget ?m' ?q' (Suc count))) \<le> budget"
              by simp
            moreover have "simplifyLoop budget mesh q count = simplifyLoop budget ?m' ?q' (Suc count)"
              using nonempty Some live clean False by (subst simplifyLoop.simps) simp
            ultimately show ?thesis
              using IH by simp
          qed
        qed
      qed
    qed
  qed
qed

text \<open>
  Claim C4, as the code has it.  The loop compares \<open>count\<close> with the budget only after a
  collapse, so one call performs at most \<open>max k 1\<close> collapses: at most \<open>k\<close> when
  \<open>k \<ge> 1\<close>, and still one when \<open>k = 0\<close>.  \<open>deletedVertices\<close> grows by exactly the
  number of collapses of the call.
\<close>

theorem meshSimplify_budget_bound:
  "snd (snd (meshSimplify_budget k m q)) \<le> max k 1 \<and>
   deletedVertices (fst (meshSimplify_budget k m q)) =
     deletedVertices m + snd (snd (meshSimplify_budget k m q))"
  using simplifyLoop_count [of k m q 0]
    simplifyLoop_count [of k "m\<lparr>edges := fst (initQueue (vertices m) (edges m))\<rparr>"
      "snd (initQueue (vertices m) (edges m))" 0]
  by (simp add: meshSimplify_budget_def case_prod_beta)

text \<open>Counterexample to C4 as stated: with budget 0 the call on the triangle performs
  one collapse and deletes vertex 1.\<close>

theorem meshSimplify_budget_zero_counterexample:
  "snd (snd (meshSimplify_budget 0 triangleMesh [])) = 1 \<and>
   deletedVertices (fst (meshSimplify_budget 0 triangleMesh [])) = 1 \<and>
   deletedVertices triangleMesh = 0 \<and>
   Vertex.isDeleted (vertices (fst (meshSimplify_budget 0 triangleMesh [])) ! 1) \<and>
   \<not> Vertex.isDeleted (vertices triangleMesh ! 1)"
  by (simp add: triangle_meshSimplify triangleCollapsed_def)
    (simp add: triangleMesh_eq triV_def)

section \<open>The interpolation parameter of a collapse\<close>

text \<open>Whatever the positions were, step 8 reads two equal positions and interpolates
  with \<open>t = 1/2\<close>.\<close>

lemma length3_zero [simp]: "length3 (vec3_sub p p) = 0"
  by (cases p) (simp add: length3_def)

lemma interpolationParameter_same [simp]: "interpolationParameter p p newPosition = 1 / 2"
  by (simp add: interpolationParameter_def QEM_EPSILON_def)

lemma texCoord_interpolateAttributes:
  "a < length vs \<Longrightarrow>
   texCoord (interpolateAttributes vs a b newPosition ! a) =
     mix2 (texCoord (vs ! a)) (texCoord (vs ! b))
       (interpolationParameter (position (vs ! a)) (position (vs ! b)) newPosition)"
  by (simp add: interpolateAttributes_def Let_def)

lemma color_interpolateAttributes:
  assumes "a < length vs"
  shows "color (interpolateAttributes vs a b newPosition ! a) =
     mix4 (color (vs ! a)) (color (vs ! b))
       (interpolationParameter (position (vs ! a)) (position (vs ! b)) newPosition)"
proof -
  let ?t = "interpolationParameter (position (vs ! a)) (position (vs ! b)) newPosition"
  let ?vs5 = "vs[a := (vs ! a)\<lparr>texCoord := mix2 (texCoord (vs ! a)) (texCoord (vs ! b)) ?t\<rparr>]"
  have "color (?vs5 ! k) = color (vs ! k)" for k
    by (rule nth_update_preserves
        [where g = "\<lambda>v. v\<lparr>texCoord := mix2 (texCoord (vs ! a)) (texCoord (vs ! b)) ?t\<rparr>"]) simp
  with assms show ?thesis
    by (simp add: interpolateAttributes_def Let_def)
qed

lemma edgeCollapse_interpolation:
  assumes "Edge.v1 (edges m ! i) < length (vertices m)"
    and "Edge.v2 (edges m ! i) < length (vertices m)"
  shows "texCoord (vertices (edgeCollapse m i) ! Edge.v1 (edges m ! i)) =
           mix2 (texCoord (vertices m ! Edge.v1 (edges m ! i)))
                (texCoord (vertices m ! Edge.v2 (edges m ! i))) (1 / 2) \<and>
         color (vertices (edgeCollapse m i) ! Edge.v1 (edges m ! i)) =
           mix4 (color (vertices m ! Edge.v1 (edges m ! i)))
                (color (vertices m ! Edge.v2 (edges m ! i))) (1 / 2)"
proof -
  have keep: "texCoord (verticesAfterQuadric m i ! k) = texCoord (vertices m ! k)"
    "color (verticesAfterQuadric m i ! k) = color (vertices m ! k)" for k
    by (simp_all add: verticesAfterQuadric_def Let_def nth_computeQuadric nth_moveVertices)
  from assms show ?thesis
    by (simp add: vertices_edgeCollapse texCoord_interpolateAttributes
        color_interpolateAttributes position_verticesAfterQuadric keep)
qed

text \<open>
  Claim C5 at a concrete collapse.  Edge 0 of the scored triangle has
  \<open>optimalPosition = (0,0,0)\<close>, the position of its \<open>v1\<close>; the pre-collapse endpoints are
  \<open>(0,0,0)\<close> and \<open>(1,0,0)\<close>, so the parameter of the claim is \<open>t = 0\<close> and the UV of
  \<open>v1\<close> would stay \<open>(0,0)\<close>.  The code has overwritten both positions before it
  measures the distances, finds \<open>totalDist = 0\<close>, takes \<open>t = 1/2\<close> and stores the UV
  \<open>(1/2, 0)\<close>.
\<close>

theorem edgeCollapse_interpolation_at_triangle:
  "texCoord (vertices (edgeCollapse triangleScored 0) ! 0) = (1 / 2, 0) \<and>
   optimalPosition (edges triangleScored ! 0) = (0, 0, 0) \<and>
   position (vertices triangleScored ! 0) = (0, 0, 0) \<and>
   position (vertices triangleScored ! 1) = (1, 0, 0) \<and>
   mix2 (texCoord (vertices triangleScored ! 0)) (texCoord (vertices triangleScored ! 1))
     (clamp (length3 (vec3_sub (optimalPosition (edges triangleScored ! 0))
                               (position (vertices triangleScored ! 0))) /
             length3 (vec3_sub (position (vertices triangleScored ! 1))
                               (position (vertices triangleScored ! 0)))) 0 1) = (0, 0)"
  by (simp add: triangle_collapse)
    (simp add: triangleScored_eq triV_def triE_def length3_def clamp_def mix_def)

section \<open>Duplicate live edges\<close>

text \<open>
  Claim C2 at a concrete collapse.  \<open>buildMesh\<close> gives the triangle its three edges once
  each.  Collapsing edge \<open>(0,1)\<close> rewrites edge \<open>(1,2)\<close> to \<open>(0,2)\<close> beside the edge
  \<open>(0,2)\<close> that is already there: two live copies of the same undirected pair, after
  \<open>edgeCollapse\<close> alone and after the call of \<open>meshSimplify\<close> that the program makes for
  a mesh of 3 vertices.
\<close>

theorem edgeCollapse_duplicate_edge_at_triangle:
  "distinct (liveEdgePairs (edges triangleBuilt)) \<and>
   liveEdgePairs (edges (edgeCollapse triangleScored 0)) = [(0, 2), (0, 2)] \<and>
   liveEdgePairs (edges (fst (meshSimplify 3 triangleMesh []))) = [(0, 2), (0, 2)]"
  by (simp add: triangle_collapse meshSimplify_def triangle_meshSimplify triangleCollapsed_def
      triangleBuilt_eq)
    (simp add: liveEdgePairs_def triE_def Edge_ctor_def)

section \<open>The edges a collapse recomputes\<close>

lemma computeCost_cong:
  assumes "position (vs ! Edge.v1 e) = position (ws ! Edge.v1 e)"
    and "position (vs ! Edge.v2 e) = position (ws ! Edge.v2 e)"
    and "quadric (vs ! Edge.v1 e) = quadric (ws ! Edge.v1 e)"
    and "quadric (vs ! Edge.v2 e) = quadric (ws ! Edge.v2 e)"
  shows "computeCost e vs = computeCost e ws"
  by (simp only: computeCost_def assms)

lemma computeCost_idem: "computeCost (computeCost e vs) vs = computeCost e vs"
  by (simp add: computeCost_def Let_def case_prod_beta)

lemma isDeleted_remapEdge [simp]: "Edge.isDeleted (remapEdge a b e) = Edge.isDeleted e"
  by (simp add: remapEdge_def Let_def)

lemma snd_remapEdges_Cons:
  "snd (remapEdges a b k (e # es)) =
     (if affectsSurvivor a b e then [k] else []) @ snd (remapEdges a b (Suc k) es)"
  by (auto simp: Let_def case_prod_beta remapEdgeStep_def affectsSurvivor_def)

lemma snd_remapEdges:
  "x \<in> set (snd (remapEdges a b k es)) \<longleftrightarrow>
     k \<le> x \<and> x - k < length es \<and> affectsSurvivor a b (es ! (x - k))"
proof (induction es arbitrary: k)
  case Nil
  then show ?case by simp
next
  case (Cons e es)
  show ?case
  proof (cases "x = k")
    case True
    with Cons.IH [of "Suc k"] show ?thesis
      by (simp add: snd_remapEdges_Cons del: remapEdges.simps)
  next
    case False
    show ?thesis
    proof (cases "k < x")
      case True
      then obtain d where d: "x - k = Suc d" "x - Suc k = d"
        by (cases "x - k") auto
      with True False Cons.IH [of "Suc k"] show ?thesis
        by (auto simp: snd_remapEdges_Cons simp del: remapEdges.simps)
    next
      case less: False
      with False Cons.IH [of "Suc k"] show ?thesis
        by (simp add: snd_remapEdges_Cons del: remapEdges.simps)
    qed
  qed
qed

lemma recomputeEdge_nth:
  "j < length es \<Longrightarrow>
   recomputeEdge vs es k ! j =
     (if j = k \<and> \<not> Edge.isDeleted (es ! j) then computeCost (es ! j) vs else es ! j)"
  by (cases "j = k") (simp_all add: recomputeEdge_def)

lemma foldl_recomputeEdge_nth:
  "j < length es \<Longrightarrow>
   foldl (recomputeEdge vs) es js ! j =
     (if j \<in> set js \<and> \<not> Edge.isDeleted (es ! j) then computeCost (es ! j) vs else es ! j)"
proof (induction js arbitrary: es)
  case Nil
  then show ?case by simp
next
  case (Cons k js)
  have len: "j < length (recomputeEdge vs es k)"
    using Cons.prems by simp
  show ?case
    using Cons.prems
    by (auto simp: Cons.IH [OF len] recomputeEdge_nth computeCost_idem)
qed

lemma edges_edgeCollapse_eq:
  "edges (edgeCollapse m i) =
     foldl (recomputeEdge (verticesAfterQuadric m i)) (edgesAfterRemap m i)
       (snd (remapEdges (Edge.v1 (edges m ! i)) (Edge.v2 (edges m ! i)) 0
          ((edges m)[i := (edges m ! i)\<lparr>Edge.isDeleted := True\<rparr>])))"
  by (simp add: edges_edgeCollapse Let_def edgesAfterRemap_def fst_remapEdges)

lemma vertices_edgeCollapse_position:
  "position (vertices (edgeCollapse m i) ! k) = position (verticesAfterQuadric m i ! k)"
  by (simp add: vertices_edgeCollapse nth_interpolateAttributes)

lemma vertices_edgeCollapse_quadric:
  "quadric (vertices (edgeCollapse m i) ! k) = quadric (verticesAfterQuadric m i ! k)"
  by (simp add: vertices_edgeCollapse nth_interpolateAttributes)

lemma computeCost_after_collapse:
  "computeCost e (vertices (edgeCollapse m i)) = computeCost e (verticesAfterQuadric m i)"
  by (rule computeCost_cong)
    (simp_all add: vertices_edgeCollapse_position vertices_edgeCollapse_quadric)

lemma isDirty_remapEdgeStep [simp]: "isDirty (remapEdgeStep a b e) = isDirty e"
  by (simp add: remapEdgeStep_def remapEdge_def Let_def)

lemma isDirty_foldl_recomputeEdge:
  "map isDirty (foldl (recomputeEdge vs) es js) = map isDirty es"
  by (induction js arbitrary: es) (simp_all add: recomputeEdge_def map_list_update_same)

lemma isDirty_edgeCollapse: "map isDirty (edges (edgeCollapse m i)) = map isDirty (edges m)"
  by (simp add: edges_edgeCollapse_eq isDirty_foldl_recomputeEdge edgesAfterRemap_def
      comp_def map_list_update_same)

lemma edgeCollapse_edge_cases:
  assumes "j < length (edges m)"
  shows "edges (edgeCollapse m i) ! j =
     (if \<not> Edge.isDeleted (edgesAfterRemap m i ! j) \<and>
         (Edge.v1 (edgesAfterRemap m i ! j) = Edge.v1 (edges m ! i) \<or>
          Edge.v2 (edgesAfterRemap m i ! j) = Edge.v1 (edges m ! i))
      then computeCost (edgesAfterRemap m i ! j) (verticesAfterQuadric m i)
      else edgesAfterRemap m i ! j)"
proof -
  have len: "j < length (edgesAfterRemap m i)"
    using assms by (simp add: edgesAfterRemap_def)
  have nth: "edgesAfterRemap m i ! j =
      remapEdgeStep (Edge.v1 (edges m ! i)) (Edge.v2 (edges m ! i))
        ((edges m)[i := (edges m ! i)\<lparr>Edge.isDeleted := True\<rparr>] ! j)"
    using assms by (simp add: edgesAfterRemap_def)
  show ?thesis
    unfolding edges_edgeCollapse_eq foldl_recomputeEdge_nth [OF len] snd_remapEdges
    using assms by (simp add: nth affectsSurvivor_def)
qed

text \<open>
  Claim C9, as the code has it.  When \<open>edgeCollapse\<close> returns, every live edge that
  touches the surviving vertex \<open>v1\<close> carries the \<open>cost\<close> and \<open>optimalPosition\<close> that
  \<open>computeCost\<close> gives on the returned vertex array (running the solver on it again
  changes nothing).  \<open>edgeCollapse\<close> writes no \<open>isDirty\<close> flag: every edge is as dirty
  on return as it was before (the scheduler sets and clears the flags).
\<close>

theorem edgeCollapse_recomputes_affected:
  assumes "i < length (edges m)" and "j < length (edges m)"
    and "\<not> Edge.isDeleted (edges (edgeCollapse m i) ! j)"
    and "Edge.v1 (edges (edgeCollapse m i) ! j) = Edge.v1 (edges m ! i) \<or>
         Edge.v2 (edges (edgeCollapse m i) ! j) = Edge.v1 (edges m ! i)"
  shows "computeCost (edges (edgeCollapse m i) ! j) (vertices (edgeCollapse m i)) =
           edges (edgeCollapse m i) ! j \<and>
         map isDirty (edges (edgeCollapse m i)) = map isDirty (edges m)"
proof -
  note cases = edgeCollapse_edge_cases [OF assms(2), of i]
  have live: "\<not> Edge.isDeleted (edgesAfterRemap m i ! j)"
    using assms(3) by (simp add: cases split: if_splits)
  have touch: "Edge.v1 (edgesAfterRemap m i ! j) = Edge.v1 (edges m ! i) \<or>
      Edge.v2 (edgesAfterRemap m i ! j) = Edge.v1 (edges m ! i)"
    using assms(4) by (simp add: cases split: if_splits)
  from live touch have "edges (edgeCollapse m i) ! j =
      computeCost (edgesAfterRemap m i ! j) (verticesAfterQuadric m i)"
    by (simp add: cases)
  then show ?thesis
    by (simp add: computeCost_after_collapse computeCost_idem isDirty_edgeCollapse)
qed

section \<open>The square, evaluated\<close>

lemma computeCost_planar:
  assumes "planarVertex (vs ! Edge.v1 e)" and "planarVertex (vs ! Edge.v2 e)"
  shows "computeCost e vs = e\<lparr>optimalPosition := position (vs ! Edge.v1 e), cost := 0\<rparr>"
proof -
  obtain c1 x1 y1 where v1: "quadric (vs ! Edge.v1 e) = planeK c1"
      "position (vs ! Edge.v1 e) = (x1, y1, 0)"
    using assms(1) unfolding planarVertex_def
    by (cases "position (vs ! Edge.v1 e)") auto
  obtain c2 x2 y2 where v2: "quadric (vs ! Edge.v2 e) = planeK c2"
      "position (vs ! Edge.v2 e) = (x2, y2, 0)"
    using assms(2) unfolding planarVertex_def
    by (cases "position (vs ! Edge.v2 e)") auto
  show ?thesis
    unfolding computeCost_def v1 v2
    by (simp add: planeK_def Q_bar_of_def determinant_def QEM_EPSILON_def FLT_MAX_def
        tryCandidate_def vec4_of_def vec3_of_def Let_def)
qed

lemma squareBuilt_eq:
  "squareBuilt =
     \<lparr>vertices = [triV (0, 0, 0) (0, 0) mat4_zero False, triV (1, 0, 0) (1, 0) mat4_zero False,
                  triV (1, 1, 0) (1, 1) mat4_zero False, triV (0, 1, 0) (0, 1) mat4_zero False],
      edges = [Edge_ctor 0 1, Edge_ctor 1 2, Edge_ctor 0 2, Edge_ctor 2 3, Edge_ctor 0 3],
      faces = [sqFace 0 1 2 False, sqFace 0 2 3 False], deletedVertices = 0\<rparr>"
  by (simp add: squareBuilt_def buildMesh_def square_weld square_faces square_edges)
    (simp add: squareUVs_def squareNormals_def Vertex_ctor_def triV_def Face_ctor_def
      sqFace_def normalize_def vec4_of_def Let_def)

lemma squareMesh_eq:
  "squareMesh =
     \<lparr>vertices = [triV (0, 0, 0) (0, 0) (planeK 2) False, triV (1, 0, 0) (1, 0) (planeK 1) False,
                  triV (1, 1, 0) (1, 1) (planeK 2) False, triV (0, 1, 0) (0, 1) (planeK 1) False],
      edges = [Edge_ctor 0 1, Edge_ctor 1 2, Edge_ctor 0 2, Edge_ctor 2 3, Edge_ctor 0 3],
      faces = [sqFace 0 1 2 False, sqFace 0 2 3 False], deletedVertices = 0\<rparr>"
  by (simp add: squareMesh_def squareBuilt_eq computeAllQuadrics_def
      computeAllQuadrics_face_def addQuadric_def sqFace_def triV_def planeK_def mat4_zero_def
      Let_def numeral_2_eq_2 numeral_3_eq_3)

lemma planarVertex_triV [simp]: "planarVertex (triV (x, y, 0) uv (planeK c) d)"
  by (simp add: planarVertex_def triV_def planeK_def)

lemma position_triV [simp]: "position (triV p uv Q d) = p"
  by (simp add: triV_def)

lemma square_initQueue:
  "initQueue (vertices squareMesh) (edges squareMesh) =
     ([triE 0 (Suc 0) (0, 0, 0) False False, triE (Suc 0) 2 (1, 0, 0) False False,
       triE 0 2 (0, 0, 0) False False, triE 2 3 (1, 1, 0) False False,
       triE 0 3 (0, 0, 0) False False],
      [triE 0 (Suc 0) (0, 0, 0) False False, triE (Suc 0) 2 (1, 0, 0) False False,
       triE 0 2 (0, 0, 0) False False, triE 2 3 (1, 1, 0) False False,
       triE 0 3 (0, 0, 0) False False])"
  by (simp add: squareMesh_eq Edge_ctor_def computeCost_planar numeral_2_eq_2 numeral_3_eq_3 Let_def)
    (simp add: triE_def)

lemma squareScored_eq:
  "squareScored =
     \<lparr>vertices = [triV (0, 0, 0) (0, 0) (planeK 2) False, triV (1, 0, 0) (1, 0) (planeK 1) False,
                  triV (1, 1, 0) (1, 1) (planeK 2) False, triV (0, 1, 0) (0, 1) (planeK 1) False],
      edges = [triE 0 (Suc 0) (0, 0, 0) False False, triE (Suc 0) 2 (1, 0, 0) False False,
               triE 0 2 (0, 0, 0) False False, triE 2 3 (1, 1, 0) False False,
               triE 0 3 (0, 0, 0) False False],
      faces = [sqFace 0 1 2 False, sqFace 0 2 3 False], deletedVertices = 0\<rparr>"
  by (simp add: squareScored_def square_initQueue) (simp add: squareMesh_eq)

lemma square_verticesAfterQuadric:
  "verticesAfterQuadric squareScored 0 =
     [triV (0, 0, 0) (0, 0) (planeK 1) False, triV (0, 0, 0) (1, 0) (planeK 1) True,
      triV (1, 1, 0) (1, 1) (planeK 2) False, triV (0, 1, 0) (0, 1) (planeK 1) False]"
  by (simp add: verticesAfterQuadric_def squareScored_eq triE_def Let_def)
    (simp add: triV_def sqFace_def remapFace_def moveVertices_def computeQuadric_def
      computeQuadric_face_def addQuadric_def planeK_def mat4_zero_def Let_def)

lemma square_remapEdges:
  "remapEdges 0 (Suc 0) 0
     [triE 0 (Suc 0) (0, 0, 0) False True, triE (Suc 0) 2 (1, 0, 0) False False,
      triE 0 2 (0, 0, 0) False False, triE 2 3 (1, 1, 0) False False,
      triE 0 3 (0, 0, 0) False False] =
     ([triE 0 (Suc 0) (0, 0, 0) False True, triE 0 2 (1, 0, 0) False False,
       triE 0 2 (0, 0, 0) False False, triE 2 3 (1, 1, 0) False False,
       triE 0 3 (0, 0, 0) False False], [Suc 0, 2, 4])"
  by (simp add: triE_def remapEdge_def Let_def numeral_2_eq_2 numeral_3_eq_3 numeral_eq_Suc)

lemma square_recompute:
  "foldl (recomputeEdge
       [triV (0, 0, 0) (0, 0) (planeK 1) False, triV (0, 0, 0) (1, 0) (planeK 1) True,
        triV (1, 1, 0) (1, 1) (planeK 2) False, triV (0, 1, 0) (0, 1) (planeK 1) False])
     [triE 0 (Suc 0) (0, 0, 0) False True, triE 0 2 (1, 0, 0) False False,
       triE 0 2 (0, 0, 0) False False, triE 2 3 (1, 1, 0) False False,
       triE 0 3 (0, 0, 0) False False] [Suc 0, 2, 4] =
     [triE 0 (Suc 0) (0, 0, 0) False True, triE 0 2 (0, 0, 0) False False,
       triE 0 2 (0, 0, 0) False False, triE 2 3 (1, 1, 0) False False,
       triE 0 3 (0, 0, 0) False False]"
  by (simp add: recomputeEdge_def triE_def computeCost_planar numeral_2_eq_2 numeral_3_eq_3
      numeral_eq_Suc)

lemma square_collapse:
  "edgeCollapse squareScored 0 =
     \<lparr>vertices = [triV (0, 0, 0) (1 / 2, 0) (planeK 1) False, triV (0, 0, 0) (1, 0) (planeK 1) True,
                  triV (1, 1, 0) (1, 1) (planeK 2) False, triV (0, 1, 0) (0, 1) (planeK 1) False],
      edges = [triE 0 (Suc 0) (0, 0, 0) False True, triE 0 2 (0, 0, 0) False False,
               triE 0 2 (0, 0, 0) False False, triE 2 3 (1, 1, 0) False False,
               triE 0 3 (0, 0, 0) False False],
      faces = [sqFace 0 0 2 True, sqFace 0 2 3 False], deletedVertices = 1\<rparr>"
proof (rule Mesh.equality)
  have e0: "edges squareScored ! 0 = triE 0 (Suc 0) (0, 0, 0) False False"
    by (simp add: squareScored_eq)
  have v: "Edge.v1 (triE 0 (Suc 0) (0, 0, 0) False False) = 0"
    "Edge.v2 (triE 0 (Suc 0) (0, 0, 0) False False) = Suc 0"
    "optimalPosition (triE 0 (Suc 0) (0, 0, 0) False False) = (0, 0, 0)"
    "(triE 0 (Suc 0) (0, 0, 0) False False)\<lparr>Edge.isDeleted := True\<rparr> =
       triE 0 (Suc 0) (0, 0, 0) False True"
    by (simp_all add: triE_def)
  have es1: "(edges squareScored)[0 := triE 0 (Suc 0) (0, 0, 0) False True] =
      [triE 0 (Suc 0) (0, 0, 0) False True, triE (Suc 0) 2 (1, 0, 0) False False,
       triE 0 2 (0, 0, 0) False False, triE 2 3 (1, 1, 0) False False,
       triE 0 3 (0, 0, 0) False False]"
    by (simp add: squareScored_eq)
  show "vertices (edgeCollapse squareScored 0) = vertices \<lparr>vertices = [triV (0, 0, 0) (1 / 2, 0) (planeK 1) False, triV (0, 0, 0) (1, 0) (planeK 1) True,
                  triV (1, 1, 0) (1, 1) (planeK 2) False, triV (0, 1, 0) (0, 1) (planeK 1) False],
      edges = [triE 0 (Suc 0) (0, 0, 0) False True, triE 0 2 (0, 0, 0) False False,
               triE 0 2 (0, 0, 0) False False, triE 2 3 (1, 1, 0) False False,
               triE 0 3 (0, 0, 0) False False],
      faces = [sqFace 0 0 2 True, sqFace 0 2 3 False], deletedVertices = 1\<rparr>"
    by (simp add: vertices_edgeCollapse square_verticesAfterQuadric e0 v)
      (simp add: interpolateAttributes_def triV_def mix_def Let_def)
  show "edges (edgeCollapse squareScored 0) = edges \<lparr>vertices = [triV (0, 0, 0) (1 / 2, 0) (planeK 1) False, triV (0, 0, 0) (1, 0) (planeK 1) True,
                  triV (1, 1, 0) (1, 1) (planeK 2) False, triV (0, 1, 0) (0, 1) (planeK 1) False],
      edges = [triE 0 (Suc 0) (0, 0, 0) False True, triE 0 2 (0, 0, 0) False False,
               triE 0 2 (0, 0, 0) False False, triE 2 3 (1, 1, 0) False False,
               triE 0 3 (0, 0, 0) False False],
      faces = [sqFace 0 0 2 True, sqFace 0 2 3 False], deletedVertices = 1\<rparr>"
    by (simp add: edges_edgeCollapse e0 v es1 square_remapEdges
        square_verticesAfterQuadric square_recompute Let_def del: remapEdges.simps foldl_Cons)
  show "faces (edgeCollapse squareScored 0) = faces \<lparr>vertices = [triV (0, 0, 0) (1 / 2, 0) (planeK 1) False, triV (0, 0, 0) (1, 0) (planeK 1) True,
                  triV (1, 1, 0) (1, 1) (planeK 2) False, triV (0, 1, 0) (0, 1) (planeK 1) False],
      edges = [triE 0 (Suc 0) (0, 0, 0) False True, triE 0 2 (0, 0, 0) False False,
               triE 0 2 (0, 0, 0) False False, triE 2 3 (1, 1, 0) False False,
               triE 0 3 (0, 0, 0) False False],
      faces = [sqFace 0 0 2 True, sqFace 0 2 3 False], deletedVertices = 1\<rparr>"
    by (simp add: faces_edgeCollapse e0 v) (simp add: squareScored_eq sqFace_def remapFace_def)
qed (simp_all add: squareScored_eq)

lemma square_collapseAndMark:
  "collapseAndMark squareScored 0 =
     (squareCollapsed,
      [triE 0 2 (0, 0, 0) True False, triE 0 2 (0, 0, 0) True False, triE 0 3 (0, 0, 0) True False])"
  by (simp add: collapseAndMark_def square_collapse squareCollapsed_def triE_def Let_def
      numeral_2_eq_2 numeral_3_eq_3)

lemma square_pq:
  "pq_top [triE 0 (Suc 0) (0, 0, 0) False False, triE (Suc 0) 2 (1, 0, 0) False False,
       triE 0 2 (0, 0, 0) False False, triE 2 3 (1, 1, 0) False False,
       triE 0 3 (0, 0, 0) False False] = triE 0 (Suc 0) (0, 0, 0) False False"
  "pq_pop [triE 0 (Suc 0) (0, 0, 0) False False, triE (Suc 0) 2 (1, 0, 0) False False,
       triE 0 2 (0, 0, 0) False False, triE 2 3 (1, 1, 0) False False,
       triE 0 3 (0, 0, 0) False False] =
     [triE (Suc 0) 2 (1, 0, 0) False False,
       triE 0 2 (0, 0, 0) False False, triE 2 3 (1, 1, 0) False False,
       triE 0 3 (0, 0, 0) False False]"
  by (simp_all add: pq_top_def pq_pop_def triE_def)

lemma square_findEdge:
  "findEdge (edges squareScored) (triE 0 (Suc 0) (0, 0, 0) False False) = Some 0"
  by (simp add: findEdge_def squareScored_eq upt_rec triE_def)

lemma square_meshSimplify:
  "fst (meshSimplify 4 squareMesh []) = squareCollapsed"
proof -
  have "meshSimplify 4 squareMesh [] =
      simplifyLoop 0 squareScored
        [triE 0 (Suc 0) (0, 0, 0) False False, triE (Suc 0) 2 (1, 0, 0) False False,
         triE 0 2 (0, 0, 0) False False, triE 2 3 (1, 1, 0) False False,
         triE 0 3 (0, 0, 0) False False] 0"
    by (simp add: meshSimplify_def meshSimplify_budget_def square_initQueue squareScored_def)
  also have "fst \<dots> = fst (collapseAndMark squareScored 0)"
    by (subst simplifyLoop.simps)
      (simp add: square_pq square_findEdge, simp add: squareScored_eq triE_def)
  finally show ?thesis
    by (simp add: square_collapseAndMark)
qed

lemma square_first_call:
  "meshSimplify 4 squareMesh [] = (squareCollapsed, squareQueue, 1)"
proof -
  have "meshSimplify 4 squareMesh [] =
      simplifyLoop 0 squareScored
        [triE 0 (Suc 0) (0, 0, 0) False False, triE (Suc 0) 2 (1, 0, 0) False False,
         triE 0 2 (0, 0, 0) False False, triE 2 3 (1, 1, 0) False False,
         triE 0 3 (0, 0, 0) False False] 0"
    by (simp add: meshSimplify_def meshSimplify_budget_def square_initQueue squareScored_def)
  also have "\<dots> = (fst (collapseAndMark squareScored 0),
      [triE (Suc 0) 2 (1, 0, 0) False False,
         triE 0 2 (0, 0, 0) False False, triE 2 3 (1, 1, 0) False False,
         triE 0 3 (0, 0, 0) False False] @ snd (collapseAndMark squareScored 0), 1)"
    by (subst simplifyLoop.simps)
      (simp add: square_pq square_findEdge, simp add: squareScored_eq triE_def)
  finally show ?thesis
    by (simp add: square_collapseAndMark squareQueue_def)
qed

text \<open>The second call discards the stale copy of \<open>(1,2)\<close>, refreshes the dirty edge 1
  and then collapses edge 3 of the refreshed mesh.\<close>

lemma square_second_call:
  "fst (meshSimplify 4 squareCollapsed squareQueue) =
     fst (collapseAndMark (refreshEdge squareCollapsed 1) 3)"
proof -
  let ?s = "refreshEdge squareCollapsed (Suc 0)"
  let ?r = "edges ?s ! Suc 0"
  have q0: "squareQueue \<noteq> []" by (simp add: squareQueue_def)
  have top1: "pq_top squareQueue = triE (Suc 0) 2 (1, 0, 0) False False"
    "pq_pop squareQueue = tl squareQueue"
    by (simp_all add: pq_top_def pq_pop_def squareQueue_def triE_def)
  have find1: "findEdge (edges squareCollapsed) (triE (Suc 0) 2 (1, 0, 0) False False) = None"
    by (simp add: findEdge_def squareCollapsed_def triE_def upt_rec find_None_iff numeral_eq_Suc)
  have step1: "simplifyLoop 0 squareCollapsed squareQueue 0 =
      simplifyLoop 0 squareCollapsed (tl squareQueue) 0"
    by (subst simplifyLoop.simps) (simp add: q0 top1 find1)
  have top2: "pq_top (tl squareQueue) = triE 0 2 (0, 0, 0) False False"
    "pq_pop (tl squareQueue) = tl (tl squareQueue)"
    by (simp_all add: pq_top_def pq_pop_def squareQueue_def triE_def)
  have find2: "findEdge (edges squareCollapsed) (triE 0 2 (0, 0, 0) False False) = Some (Suc 0)"
    by (simp add: findEdge_def squareCollapsed_def triE_def upt_rec numeral_eq_Suc)
  have e1: "\<not> Edge.isDeleted (edges squareCollapsed ! Suc 0)" "isDirty (edges squareCollapsed ! Suc 0)"
    by (simp_all add: squareCollapsed_def triE_def)
  have step2: "simplifyLoop 0 squareCollapsed (tl squareQueue) 0 =
      simplifyLoop 0 ?s (tl (tl squareQueue) @ [?r]) 0"
    by (subst simplifyLoop.simps) (simp add: squareQueue_def top2 [unfolded squareQueue_def, simplified] find2 e1)
  have r: "?r = triE 0 2 (0, 0, 0) False False"
    by (simp add: refreshEdge_def squareCollapsed_def triE_def computeCost_planar
        numeral_2_eq_2)
  have top3: "pq_top (tl (tl squareQueue) @ [?r]) = triE 2 3 (1, 1, 0) False False"
    "pq_pop (tl (tl squareQueue) @ [?r]) = tl (tl (tl squareQueue)) @ [?r]"
    unfolding r by (simp_all add: pq_top_def pq_pop_def squareQueue_def triE_def)
  have find3: "findEdge (edges ?s) (triE 2 3 (1, 1, 0) False False) = Some 3"
    by (simp add: findEdge_def refreshEdge_def squareCollapsed_def triE_def upt_rec numeral_eq_Suc)
  have e3: "\<not> Edge.isDeleted (edges ?s ! 3)" "\<not> isDirty (edges ?s ! 3)"
    by (simp_all add: refreshEdge_def squareCollapsed_def triE_def)
  have step3: "fst (simplifyLoop 0 ?s (tl (tl squareQueue) @ [?r]) 0) =
      fst (collapseAndMark ?s 3)"
    by (subst simplifyLoop.simps) (simp add: top3 find3 e3)
  show ?thesis
    by (simp add: meshSimplify_def meshSimplify_budget_def q0 step1 step2 step3)
qed

section \<open>The invariant of faces and edges\<close>

lemma isDeleted_moveVertices:
  assumes "k < length vs"
  shows "Vertex.isDeleted (moveVertices vs a b newPosition ! k) = (k = b \<or> Vertex.isDeleted (vs ! k))"
proof -
  let ?vs1 = "vs[a := (vs ! a)\<lparr>position := newPosition\<rparr>]"
  let ?vs2 = "?vs1[b := (?vs1 ! b)\<lparr>position := newPosition\<rparr>]"
  have "Vertex.isDeleted (?vs2 ! j) = Vertex.isDeleted (?vs1 ! j)" for j
    by (rule nth_update_preserves [where g = "\<lambda>v. v\<lparr>position := newPosition\<rparr>"]) simp
  moreover have "Vertex.isDeleted (?vs1 ! j) = Vertex.isDeleted (vs ! j)" for j
    by (rule nth_update_preserves [where g = "\<lambda>v. v\<lparr>position := newPosition\<rparr>"]) simp
  ultimately have keep: "Vertex.isDeleted (?vs2 ! j) = Vertex.isDeleted (vs ! j)" for j
    by simp
  show ?thesis
    using assms keep [of k]
    by (cases "k = b") (simp_all add: moveVertices_def Let_def)
qed

lemma isDeleted_vertices_edgeCollapse:
  assumes "k < length (vertices m)"
  shows "Vertex.isDeleted (vertices (edgeCollapse m i) ! k) =
           (k = Edge.v2 (edges m ! i) \<or> Vertex.isDeleted (vertices m ! k))"
  using assms
  by (simp add: vertices_edgeCollapse nth_interpolateAttributes verticesAfterQuadric_def
      Let_def nth_computeQuadric isDeleted_moveVertices)

lemma liveVertex_edgeCollapse:
  "liveVertex (vertices (edgeCollapse m i)) k \<longleftrightarrow>
     liveVertex (vertices m) k \<and> k \<noteq> Edge.v2 (edges m ! i)"
  by (auto simp: liveVertex_def isDeleted_vertices_edgeCollapse)

lemma edge_shape_edgeCollapse:
  assumes "j < length (edges m)"
  shows "Edge.v1 (edges (edgeCollapse m i) ! j) = Edge.v1 (edgesAfterRemap m i ! j)"
    and "Edge.v2 (edges (edgeCollapse m i) ! j) = Edge.v2 (edgesAfterRemap m i ! j)"
    and "Edge.isDeleted (edges (edgeCollapse m i) ! j) = Edge.isDeleted (edgesAfterRemap m i ! j)"
  by (simp_all add: edgeCollapse_edge_cases [OF assms])

lemma edge_ok_remapEdgeStep:
  assumes "edge_ok vs e" and "a \<noteq> b" and "liveVertex vs a"
    and "\<And>k. liveVertex vs' k \<longleftrightarrow> liveVertex vs k \<and> k \<noteq> b"
  shows "edge_ok vs' (remapEdgeStep a b e)"
  using assms(1-3)
  by (auto simp: edge_ok_def remapEdgeStep_def remapEdge_def Let_def assms(4))

lemma face_ok_remapFace:
  assumes "face_ok vs f" and "a \<noteq> b" and "liveVertex vs a"
    and "\<And>k. liveVertex vs' k \<longleftrightarrow> liveVertex vs k \<and> k \<noteq> b"
  shows "face_ok vs' (remapFace a b f)"
  using assms(1-3)
  by (auto simp: face_ok_def remapFace_def Let_def assms(4))

lemma edge_ok_cong:
  "Edge.v1 e = Edge.v1 e' \<Longrightarrow> Edge.v2 e = Edge.v2 e' \<Longrightarrow> Edge.isDeleted e = Edge.isDeleted e' \<Longrightarrow>
   edge_ok vs e = edge_ok vs e'"
  by (simp add: edge_ok_def)

lemma mesh_inv_edgeCollapse:
  assumes inv: "mesh_inv m" and i: "i < length (edges m)"
    and live: "\<not> Edge.isDeleted (edges m ! i)"
  shows "mesh_inv (edgeCollapse m i)"
proof -
  let ?a = "Edge.v1 (edges m ! i)" and ?b = "Edge.v2 (edges m ! i)"
  let ?vs' = "vertices (edgeCollapse m i)"
  from inv i have "edge_ok (vertices m) (edges m ! i)"
    by (simp add: mesh_inv_def list_all_length)
  with live have ab: "?a \<noteq> ?b" and a: "liveVertex (vertices m) ?a"
    by (simp_all add: edge_ok_def)
  have lv: "liveVertex ?vs' k \<longleftrightarrow> liveVertex (vertices m) k \<and> k \<noteq> ?b" for k
    by (rule liveVertex_edgeCollapse)
  have "face_ok ?vs' f" if "f \<in> set (faces (edgeCollapse m i))" for f
  proof -
    from that obtain g where g: "g \<in> set (faces m)" "f = remapFace ?a ?b g"
      by (auto simp: faces_edgeCollapse)
    from inv g(1) have "face_ok (vertices m) g"
      by (simp add: mesh_inv_def list_all_iff)
    from face_ok_remapFace [OF this ab a lv] g(2) show ?thesis by simp
  qed
  moreover have "edge_ok ?vs' (edges (edgeCollapse m i) ! j)" if j: "j < length (edges m)" for j
  proof -
    let ?e = "(edges m)[i := (edges m ! i)\<lparr>Edge.isDeleted := True\<rparr>] ! j"
    have "edge_ok (vertices m) ?e"
    proof (cases "j = i")
      case True
      with i show ?thesis by (simp add: edge_ok_def)
    next
      case False
      with inv j show ?thesis by (simp add: mesh_inv_def list_all_length)
    qed
    from edge_ok_remapEdgeStep [OF this ab a lv]
    have "edge_ok ?vs' (edgesAfterRemap m i ! j)"
      using j by (simp add: edgesAfterRemap_def)
    then show ?thesis
      by (simp add: edge_ok_cong [OF edge_shape_edgeCollapse [OF j]])
  qed
  ultimately show ?thesis
    by (simp add: mesh_inv_def list_all_iff list_all_length all_set_conv_all_nth)
qed

lemma length_mapping_weldVertex:
  "length (snd (snd (weldVertex inVertices uvs normals st i))) = length (snd (snd st))"
  by (cases st) (simp add: weldVertex_def Let_def split: option.splits)

lemma weldInv_weldVertex:
  assumes "weldInv k st" and "k < length (snd (snd st))"
  shows "weldInv (Suc k) (weldVertex inVertices uvs normals st k)"
proof -
  obtain vs spatialHash vertexMapping where st: "st = (vs, spatialHash, vertexMapping)"
    by (cases st) auto
  from assms(1) have mp: "\<forall>j<k. vertexMapping ! j < length vs"
    and hash: "\<And>key cands c. spatialHash key = Some cands \<Longrightarrow> c \<in> set cands \<Longrightarrow> c < length vs"
    and live: "\<forall>v\<in>set vs. \<not> Vertex.isDeleted v"
    by (auto simp: weldInv_def st)
  from assms(2) have len: "k < length vertexMapping" by (simp add: st)
  let ?pos = "inVertices ! k"
  let ?found = "case spatialHash (gridKey ?pos) of None \<Rightarrow> None
     | Some candidates \<Rightarrow>
         find (\<lambda>existingIdx. distance ?pos (position (vs ! existingIdx)) < EPSILON) candidates"
  show ?thesis
  proof (cases ?found)
    case (Some existingIdx)
    then obtain cands where c: "spatialHash (gridKey ?pos) = Some cands" "existingIdx \<in> set cands"
      by (auto split: option.splits simp: find_Some_iff)
    from hash [OF c] have "existingIdx < length vs" .
    with mp len live hash Some show ?thesis
      by (auto simp: weldInv_def st weldVertex_def Let_def nth_list_update less_Suc_eq)
  next
    case None
    with mp len live hash show ?thesis
      by (auto simp: weldInv_def st weldVertex_def Let_def nth_list_update less_Suc_eq
          Vertex_ctor_def split: option.splits if_splits)
  qed
qed

lemma weldInv_foldl:
  "k \<le> n \<Longrightarrow>
   weldInv k (foldl (weldVertex inVertices uvs normals) ([], Map.empty, replicate n 0) [0..<k]) \<and>
   length (snd (snd (foldl (weldVertex inVertices uvs normals) ([], Map.empty, replicate n 0) [0..<k]))) = n"
proof (induction k)
  case 0
  then show ?case by (simp add: weldInv_def)
next
  case (Suc k)
  then show ?case
    by (simp add: weldInv_weldVertex length_mapping_weldVertex)
qed

lemma weldVertices_inv:
  "weldInv n (weldVertices n inVertices uvs normals)"
  using weldInv_foldl [of n n] by (simp add: weldVertices_def)

lemma faceBuilt_emitFace:
  assumes "\<forall>j<n. vertexMapping ! j < length vs" and "\<forall>v\<in>set vs. \<not> Vertex.isDeleted v"
    and "list_all (faceBuilt vs) fs"
  shows "list_all (faceBuilt vs) (emitFace n vs vertexMapping fs i)"
  using assms
  by (auto simp: emitFace_def Let_def faceBuilt_def Face_ctor_def liveVertex_def)

lemma faceBuilt_foldl_emitFace:
  assumes "\<forall>j<n. vertexMapping ! j < length vs" and "\<forall>v\<in>set vs. \<not> Vertex.isDeleted v"
  shows "list_all (faceBuilt vs) fs \<Longrightarrow>
     list_all (faceBuilt vs) (foldl (emitFace n vs vertexMapping) fs idxs)"
  by (induction idxs arbitrary: fs) (simp_all add: faceBuilt_emitFace [OF assms])

lemma edge_ok_Edge_ctor:
  "a \<noteq> b \<Longrightarrow> liveVertex vs a \<Longrightarrow> liveVertex vs b \<Longrightarrow> edge_ok vs (Edge_ctor (min a b) (max a b))"
  by (auto simp: edge_ok_def Edge_ctor_def min_def max_def)

lemma edge_ok_addEdge:
  "a \<noteq> b \<Longrightarrow> liveVertex vs a \<Longrightarrow> liveVertex vs b \<Longrightarrow> list_all (edge_ok vs) (fst st) \<Longrightarrow>
   list_all (edge_ok vs) (fst (addEdge st (min a b, max a b)))"
  by (cases st) (simp add: addEdge_def edge_ok_Edge_ctor)

lemma edge_ok_extractEdges:
  assumes "faceBuilt vs f" and "list_all (edge_ok vs) (fst st)"
  shows "list_all (edge_ok vs) (fst (extractEdges st f))"
  unfolding extractEdges_def Let_def
  using assms
  by (intro edge_ok_addEdge) (simp_all add: faceBuilt_def)

lemma edge_ok_foldl_extractEdges:
  "list_all (faceBuilt vs) fs \<Longrightarrow> list_all (edge_ok vs) (fst st) \<Longrightarrow>
   list_all (edge_ok vs) (fst (foldl extractEdges st fs))"
  by (induction fs arbitrary: st) (simp_all add: edge_ok_extractEdges)

lemma mesh_inv_buildMesh: "mesh_inv (buildMesh numVertices inVertices uvs normals)"
proof -
  obtain vs spatialHash vertexMapping
    where w: "weldVertices numVertices inVertices uvs normals = (vs, spatialHash, vertexMapping)"
    by (cases "weldVertices numVertices inVertices uvs normals") auto
  from weldVertices_inv [of numVertices inVertices uvs normals]
  have mp: "\<forall>j<numVertices. vertexMapping ! j < length vs"
    and live: "\<forall>v\<in>set vs. \<not> Vertex.isDeleted v"
    by (simp_all add: w weldInv_def)
  have fs: "list_all (faceBuilt vs) (buildFaces numVertices vs vertexMapping)"
    unfolding buildFaces_def by (rule faceBuilt_foldl_emitFace [OF mp live]) simp
  then have es: "list_all (edge_ok vs) (uniqueEdges (buildFaces numVertices vs vertexMapping))"
    unfolding uniqueEdges_def by (rule edge_ok_foldl_extractEdges) simp
  from fs have "list_all (face_ok vs) (buildFaces numVertices vs vertexMapping)"
    by (simp add: list_all_iff faceBuilt_def face_ok_def)
  with es show ?thesis
    by (simp add: mesh_inv_def buildMesh_def w Let_def)
qed

lemma edgeSetInv_addEdge:
  "edgeSetInv st \<Longrightarrow> edgeSetInv (addEdge st (min a b, max a b))"
  by (cases st) (auto simp: edgeSetInv_def addEdge_def Edge_ctor_def)

lemma edgeSetInv_extractEdges: "edgeSetInv st \<Longrightarrow> edgeSetInv (extractEdges st f)"
  by (simp add: extractEdges_def Let_def edgeSetInv_addEdge)

lemma edgeSetInv_foldl: "edgeSetInv st \<Longrightarrow> edgeSetInv (foldl extractEdges st fs)"
  by (induction fs arbitrary: st) (simp_all add: edgeSetInv_extractEdges)

lemma liveEdgePairs_ordered:
  "\<forall>e\<in>set es. \<not> Edge.isDeleted e \<and> Edge.v1 e \<le> Edge.v2 e \<Longrightarrow>
   liveEdgePairs es = map (\<lambda>e. (Edge.v1 e, Edge.v2 e)) es"
  by (induction es) (simp_all add: liveEdgePairs_def min_def max_def)

lemma distinct_liveEdgePairs_buildMesh:
  "distinct (liveEdgePairs (edges (buildMesh numVertices inVertices uvs normals)))"
proof -
  have "edgeSetInv (foldl extractEdges ([], \<lambda>e. False) fs)" for fs
    by (rule edgeSetInv_foldl) (simp add: edgeSetInv_def)
  then have "distinct (liveEdgePairs (uniqueEdges fs))" for fs
    by (simp add: uniqueEdges_def edgeSetInv_def case_prod_beta liveEdgePairs_ordered)
  then show ?thesis
    by (simp add: buildMesh_def Let_def case_prod_beta)
qed

lemma isDeleted_addQuadric [simp]:
  "map Vertex.isDeleted (addQuadric vs i Kp) = map Vertex.isDeleted vs"
  by (simp add: addQuadric_def map_list_update_same)

lemma isDeleted_foldl_computeAllQuadrics_face:
  "map Vertex.isDeleted (foldl computeAllQuadrics_face vs fs) = map Vertex.isDeleted vs"
  by (induction fs arbitrary: vs) (simp_all add: computeAllQuadrics_face_def Let_def)

lemma isDeleted_computeAllQuadrics:
  "map Vertex.isDeleted (computeAllQuadrics vs fs) = map Vertex.isDeleted vs"
  by (simp add: computeAllQuadrics_def isDeleted_foldl_computeAllQuadrics_face comp_def)

lemma liveVertex_cong:
  assumes "map Vertex.isDeleted ws = map Vertex.isDeleted vs"
  shows "liveVertex ws k = liveVertex vs k"
proof -
  from assms have len: "length ws = length vs" by (rule map_eq_imp_length_eq)
  have "Vertex.isDeleted (ws ! k) = Vertex.isDeleted (vs ! k)" if "k < length vs"
    using that len nth_map [of k ws Vertex.isDeleted] nth_map [of k vs Vertex.isDeleted] assms
    by simp
  with len show ?thesis by (auto simp: liveVertex_def)
qed

lemma mesh_inv_vertices_cong:
  assumes "map Vertex.isDeleted ws = map Vertex.isDeleted (vertices m)"
  shows "mesh_inv (m\<lparr>vertices := ws\<rparr>) = mesh_inv m"
proof -
  have "face_ok ws = face_ok (vertices m)"
    by (rule ext) (simp add: face_ok_def liveVertex_cong [OF assms])
  moreover have "edge_ok ws = edge_ok (vertices m)"
    by (rule ext) (simp add: edge_ok_def liveVertex_cong [OF assms])
  ultimately show ?thesis by (simp add: mesh_inv_def)
qed

lemma edge_ok_list_cong:
  assumes "map Edge.v1 es' = map Edge.v1 es" and "map Edge.v2 es' = map Edge.v2 es"
    and "map Edge.isDeleted es' = map Edge.isDeleted es"
  shows "list_all (edge_ok vs) es' = list_all (edge_ok vs) es"
proof -
  from assms(1) have len: "length es' = length es" by (rule map_eq_imp_length_eq)
  have "edge_ok vs (es' ! j) = edge_ok vs (es ! j)" if "j < length es" for j
  proof (rule edge_ok_cong)
    show "Edge.v1 (es' ! j) = Edge.v1 (es ! j)"
      using that len nth_map [of j es' Edge.v1] nth_map [of j es Edge.v1] assms(1) by simp
    show "Edge.v2 (es' ! j) = Edge.v2 (es ! j)"
      using that len nth_map [of j es' Edge.v2] nth_map [of j es Edge.v2] assms(2) by simp
    show "Edge.isDeleted (es' ! j) = Edge.isDeleted (es ! j)"
      using that len nth_map [of j es' Edge.isDeleted] nth_map [of j es Edge.isDeleted] assms(3)
      by simp
  qed
  with len show ?thesis by (simp add: list_all_length)
qed

lemma mesh_inv_edges_cong:
  assumes "map Edge.v1 es' = map Edge.v1 (edges m)" and "map Edge.v2 es' = map Edge.v2 (edges m)"
    and "map Edge.isDeleted es' = map Edge.isDeleted (edges m)"
  shows "mesh_inv (m\<lparr>edges := es'\<rparr>) = mesh_inv m"
  by (simp add: mesh_inv_def edge_ok_list_cong [OF assms])

lemma mesh_inv_refreshEdge: "mesh_inv (refreshEdge m i) = mesh_inv m"
  unfolding refreshEdge_def
  by (rule mesh_inv_edges_cong) (simp_all add: map_list_update_same)

lemma mesh_inv_markDirty:
  "mesh_inv (m\<lparr>edges := fst (markDirty nv (edges m))\<rparr>) = mesh_inv m"
  by (rule mesh_inv_edges_cong) (simp_all add: fst_markDirty markDirtyStep_def)

lemma fst_initQueue:
  "fst (initQueue vs es) =
     map (\<lambda>e. if Edge.isDeleted e then e else (computeCost e vs)\<lparr>isDirty := False\<rparr>) es"
  by (induction es) (simp_all add: Let_def case_prod_beta)

lemma mesh_inv_initQueue:
  "mesh_inv (m\<lparr>edges := fst (initQueue (vertices m) (edges m))\<rparr>) = mesh_inv m"
  by (rule mesh_inv_edges_cong) (simp_all add: fst_initQueue)

lemma mesh_inv_collapseAndMark:
  assumes "mesh_inv m" and "i < length (edges m)" and "\<not> Edge.isDeleted (edges m ! i)"
  shows "mesh_inv (fst (collapseAndMark m i))"
  using mesh_inv_edgeCollapse [OF assms]
    mesh_inv_markDirty [where m = "edgeCollapse m i"
      and nv = "Edge.v1 (edges (edgeCollapse m i) ! i)"]
  by (simp add: collapseAndMark_def Let_def case_prod_beta)

lemma mesh_inv_meshSimplify:
  assumes "mesh_inv m"
  shows "mesh_inv (fst (meshSimplify originalVertexCount m edgeQueue))"
proof -
  have loop: "mesh_inv (fst (simplifyLoop budget m' q count))" if "mesh_inv m'"
    for budget m' q count
    by (rule simplifyLoop_preserves [where P = mesh_inv])
      (simp_all add: that mesh_inv_refreshEdge mesh_inv_collapseAndMark)
  show ?thesis
    by (simp add: meshSimplify_def meshSimplify_budget_def case_prod_beta loop assms
        mesh_inv_initQueue)
qed

lemma mesh_inv_reachable: "reachable m \<Longrightarrow> mesh_inv m"
proof (induction rule: reachable.induct)
  case (built numVertices inVertices uvs normals)
  show ?case by (rule mesh_inv_buildMesh)
next
  case (collapsed m edgeIndex)
  then show ?case by (simp add: mesh_inv_edgeCollapse)
next
  case (quadrics m)
  then show ?case by (simp add: mesh_inv_vertices_cong isDeleted_computeAllQuadrics)
next
  case (simplified m originalVertexCount edgeQueue)
  then show ?case by (simp add: mesh_inv_meshSimplify)
qed

text \<open>
  Claim C1.  In every mesh state that \<open>buildMesh\<close> builds and that \<open>edgeCollapse\<close> on live
  edges (and the program's other mutators) then reaches, every live face has three
  pairwise distinct indices of live vertices and every live edge has two distinct
  live endpoints.  \<open>buildMesh\<close> establishes this (\<open>mesh_inv_buildMesh\<close>) and a collapse
  of a live edge preserves it (\<open>mesh_inv_edgeCollapse\<close>).
\<close>

theorem reachable_mesh_inv:
  assumes "reachable m"
  shows "mesh_inv m"
  using assms by (rule mesh_inv_reachable)

text \<open>Witness for C1: the triangle after the collapse of its edge 0.\<close>

theorem reachable_mesh_inv_witness:
  "reachable (edgeCollapse triangleBuilt 0) \<and> mesh_inv (edgeCollapse triangleBuilt 0)"
proof -
  have "reachable triangleBuilt"
    unfolding triangleBuilt_def by (rule reachable.built)
  then have r: "reachable (edgeCollapse triangleBuilt 0)"
    by (rule reachable.collapsed) (simp_all add: triangleBuilt_eq Edge_ctor_def)
  from reachable_mesh_inv [OF r] r show ?thesis by simp
qed

text \<open>On every reachable mesh the hypothesis of the quadric equivalence holds.\<close>

lemma quadrics_agree_reachable:
  assumes "reachable m" and "i < length (vertices m)"
  shows "quadric (computeAllQuadrics (vertices m) (faces m) ! i) =
         quadric (computeQuadric i (vertices m) (faces m) ! i)"
proof -
  from assms(1) have "list_all (face_ok (vertices m)) (faces m)"
    by (simp add: mesh_inv_reachable [unfolded mesh_inv_def])
  then have "list_all (\<lambda>f. Face.isDeleted f \<or> face_indices_ok (length (vertices m)) f) (faces m)"
    by (auto simp: list_all_iff face_ok_def face_indices_ok_def liveVertex_def)
  with assms(2) show ?thesis by (rule quadrics_agree)
qed

section \<open>Dirty flags across a collapse\<close>

text \<open>Witness for C9: edge 1 of the scored triangle after the collapse of edge 0.\<close>

theorem edgeCollapse_recomputes_affected_witness:
  "0 < length (edges triangleScored) \<and> 1 < length (edges triangleScored) \<and>
   \<not> Edge.isDeleted (edges (edgeCollapse triangleScored 0) ! 1) \<and>
   (Edge.v1 (edges (edgeCollapse triangleScored 0) ! 1) = Edge.v1 (edges triangleScored ! 0) \<or>
    Edge.v2 (edges (edgeCollapse triangleScored 0) ! 1) = Edge.v1 (edges triangleScored ! 0)) \<and>
   computeCost (edges (edgeCollapse triangleScored 0) ! 1) (vertices (edgeCollapse triangleScored 0)) =
     edges (edgeCollapse triangleScored 0) ! 1 \<and>
   map isDirty (edges (edgeCollapse triangleScored 0)) = map isDirty (edges triangleScored)"
proof -
  have h1: "0 < length (edges triangleScored)" and h2: "1 < length (edges triangleScored)"
    by (simp_all add: triangleScored_eq)
  have h3: "\<not> Edge.isDeleted (edges (edgeCollapse triangleScored 0) ! 1)"
    by (simp add: triangle_collapse triE_def)
  have h4: "Edge.v1 (edges (edgeCollapse triangleScored 0) ! 1) = Edge.v1 (edges triangleScored ! 0) \<or>
    Edge.v2 (edges (edgeCollapse triangleScored 0) ! 1) = Edge.v1 (edges triangleScored ! 0)"
    by (simp add: triangle_collapse) (simp add: triangleScored_eq triE_def)
  from edgeCollapse_recomputes_affected [OF h1 h2 h3 h4] h1 h2 h3 h4 show ?thesis
    by simp
qed

text \<open>
  Counterexample to C9 as stated.  \<open>squareCollapsed\<close> is the program's mesh after the first
  call of \<open>meshSimplify\<close> on the unit square (\<open>square_first_call\<close>); the second call, with
  the queue order of the model, finds edge 1 dirty and refreshes it, then collapses the
  clean live edge 3 = \<open>(2,3)\<close> (\<open>square_second_call\<close>).  Edge 2 = \<open>(0,2)\<close> is live and
  touches the surviving vertex 2, and it is as dirty when \<open>edgeCollapse\<close> returns as it
  was before.
\<close>

theorem edgeCollapse_dirty_counterexample:
  "\<not> Edge.isDeleted (edges (refreshEdge squareCollapsed 1) ! 3) \<and>
   Edge.v1 (edges (refreshEdge squareCollapsed 1) ! 3) = 2 \<and>
   \<not> Edge.isDeleted (edges (edgeCollapse (refreshEdge squareCollapsed 1) 3) ! 2) \<and>
   Edge.v2 (edges (edgeCollapse (refreshEdge squareCollapsed 1) 3) ! 2) = 2 \<and>
   isDirty (edges (edgeCollapse (refreshEdge squareCollapsed 1) 3) ! 2)"
proof -
  let ?s = "refreshEdge squareCollapsed (Suc 0)"
  have es: "edges ?s ! 2 = triE 0 2 (0, 0, 0) True False"
    "edges ?s ! 3 = triE 2 3 (1, 1, 0) False False" "length (edges ?s) = 5"
    by (simp_all add: refreshEdge_def squareCollapsed_def)
  have "map isDirty (edges (edgeCollapse ?s 3)) ! 2 = map isDirty (edges ?s) ! 2"
    by (simp only: isDirty_edgeCollapse)
  then have dirty: "isDirty (edges (edgeCollapse ?s 3) ! 2)"
    by (simp add: es) (simp add: triE_def)
  have shape: "edgesAfterRemap ?s 3 ! 2 = triE 0 2 (0, 0, 0) True False"
    by (simp add: edgesAfterRemap_def es)
      (simp add: triE_def remapEdgeStep_def remapEdge_def)
  have j: "2 < length (edges ?s)" by (simp add: es)
  from edge_shape_edgeCollapse [OF j, of 3] dirty show ?thesis
    by (simp add: shape es) (simp add: triE_def)
qed

end
